theory Spec2Isabelle
  imports
    Complex_Main
    "HOL-Library.Word"
    "HOL-Library.Log_Nat"
    "HOL-Library.Char_ord"
    "HOL-Library.List_Lexorder"
begin

section \<open>The DAT parser of data\_parser\_qmt.py\<close>

text \<open>
  The development embeds \<^verbatim>\<open>DATParser.parse_date\<close>, \<^verbatim>\<open>DATParser._detect_data_type\<close>,
  \<^verbatim>\<open>DATParser.parse_dat_file\<close> and the per-file loop of \<^verbatim>\<open>DATParser.parse_directory\<close>.
  What the Python runtime and its libraries contribute is made explicit first: binary64
  arithmetic, \<^verbatim>\<open>round\<close>, \<^verbatim>\<open>struct.unpack\<close>, the calendar behind
  \<^verbatim>\<open>datetime.fromtimestamp\<close>, \<^verbatim>\<open>str\<close> on integers, slices and \<^verbatim>\<open>range\<close>.
\<close>

subsection \<open>Binary64 numbers\<close>

text \<open>
  A Python \<^verbatim>\<open>float\<close> is an IEEE 754 binary64 value. A finite one is represented by the
  rational number it denotes; every arithmetic operation computes the exact rational
  result and rounds it to the nearest binary64 value, ties to the even significand.
  The two zeros are not told apart: the program only reaches \<^verbatim>\<open>+0.0\<close>, since all of its
  floats come from non-negative integers.
\<close>

datatype double = Finite rat | PInf | NInf | NaN

definition round_half_even :: "rat \<Rightarrow> int" where
  "round_half_even x =
     (let f = \<lfloor>x\<rfloor>; d = x - of_int f
      in if d < 1 / 2 then f
         else if 1 / 2 < d then f + 1
         else if even f then f else f + 1)"

text \<open>\<open>ilog2 x\<close> is the integer \<open>k\<close> with \<open>2 powi k \<le> x < 2 powi (k + 1)\<close>, for positive \<open>x\<close>.\<close>

definition ilog2 :: "rat \<Rightarrow> int" where
  "ilog2 x = (if 1 \<le> x then bitlen \<lfloor>x\<rfloor> - 1 else - bitlen (\<lceil>1 / x\<rceil> - 1))"

text \<open>
  The exponent of the unit in the last place: 53 significant bits, and never below the
  exponent of the subnormal numbers.
\<close>

definition binary64_exponent :: "rat \<Rightarrow> int" where
  "binary64_exponent x = max (ilog2 x - 52) (- 1074)"

definition round_binary64 :: "rat \<Rightarrow> rat" where
  "round_binary64 x =
     (if x = 0 then 0
      else let e = binary64_exponent \<bar>x\<bar>
           in sgn x * of_int (round_half_even (\<bar>x\<bar> / 2 powi e)) * 2 powi e)"

text \<open>
  Rounding an exact result into the format: a rounded magnitude of \<open>2 ^ 1024\<close> or more,
  beyond the largest finite value, is an infinity.
\<close>

definition fl :: "rat \<Rightarrow> double" where
  "fl x =
     (let r = round_binary64 x
      in if r = 0 then Finite 0
         else if 1024 \<le> ilog2 \<bar>r\<bar> then (if 0 < r then PInf else NInf)
         else Finite r)"

text \<open>The comparisons \<^verbatim>\<open><\<close> and \<^verbatim>\<open>==\<close> of floats: every comparison with a NaN is false.\<close>

fun flt :: "double \<Rightarrow> double \<Rightarrow> bool" where
  "flt (Finite a) (Finite b) = (a < b)"
| "flt NaN _ = False"
| "flt _ NaN = False"
| "flt PInf _ = False"
| "flt _ PInf = True"
| "flt _ NInf = False"
| "flt NInf _ = True"

fun feq :: "double \<Rightarrow> double \<Rightarrow> bool" where
  "feq (Finite a) (Finite b) = (a = b)"
| "feq PInf PInf = True"
| "feq NInf NInf = True"
| "feq _ _ = False"

text \<open>
  The builtins \<^verbatim>\<open>max(a, b)\<close> and \<^verbatim>\<open>min(a, b)\<close> keep the first argument unless the second
  is strictly larger (smaller).
\<close>

definition py_max :: "double \<Rightarrow> double \<Rightarrow> double" where
  "py_max a b = (if flt a b then b else a)"

definition py_min :: "double \<Rightarrow> double \<Rightarrow> double" where
  "py_min a b = (if flt b a then b else a)"

text \<open>
  Division, subtraction and multiplication as numpy computes them on a float64 column:
  no exception, a zero divisor gives an infinity or a NaN.
\<close>

fun fdiv :: "double \<Rightarrow> double \<Rightarrow> double" where
  "fdiv (Finite a) (Finite b) =
     (if b = 0 then (if a = 0 then NaN else if 0 < a then PInf else NInf) else fl (a / b))"
| "fdiv NaN _ = NaN"
| "fdiv _ NaN = NaN"
| "fdiv (Finite a) _ = Finite 0"
| "fdiv PInf (Finite b) = (if 0 \<le> b then PInf else NInf)"
| "fdiv NInf (Finite b) = (if 0 \<le> b then NInf else PInf)"
| "fdiv _ _ = NaN"

fun fsub :: "double \<Rightarrow> double \<Rightarrow> double" where
  "fsub (Finite a) (Finite b) = fl (a - b)"
| "fsub NaN _ = NaN"
| "fsub _ NaN = NaN"
| "fsub PInf PInf = NaN"
| "fsub NInf NInf = NaN"
| "fsub PInf _ = PInf"
| "fsub NInf _ = NInf"
| "fsub _ PInf = NInf"
| "fsub _ NInf = PInf"

fun fmul :: "double \<Rightarrow> double \<Rightarrow> double" where
  "fmul (Finite a) (Finite b) = fl (a * b)"
| "fmul NaN _ = NaN"
| "fmul _ NaN = NaN"
| "fmul PInf (Finite b) = (if b = 0 then NaN else if 0 < b then PInf else NInf)"
| "fmul NInf (Finite b) = (if b = 0 then NaN else if 0 < b then NInf else PInf)"
| "fmul (Finite a) PInf = (if a = 0 then NaN else if 0 < a then PInf else NInf)"
| "fmul (Finite a) NInf = (if a = 0 then NaN else if 0 < a then NInf else PInf)"
| "fmul PInf PInf = PInf"
| "fmul NInf NInf = PInf"
| "fmul _ _ = NInf"

text \<open>
  \<^verbatim>\<open>n / d\<close> for an int \<open>n\<close> and a float constant \<open>d\<close>: the int is converted to the nearest
  float, then divided. The two call sites pass a 32-bit field and the constants
  \<^verbatim>\<open>1000.0\<close> and \<^verbatim>\<open>100.0\<close>, so neither the conversion nor the division can raise.
\<close>

definition int_truediv :: "int \<Rightarrow> rat \<Rightarrow> double" where
  "int_truediv n d = fdiv (fl (of_int n)) (Finite d)"

text \<open>
  \<^verbatim>\<open>round(x, 2)\<close> on a float: the exact value of \<open>x\<close> is rounded to two decimals, ties to
  even, and the decimal result is converted back to the nearest float. An infinity or
  a NaN is returned as it is.
\<close>

fun round2 :: "double \<Rightarrow> double" where
  "round2 (Finite x) = fl (of_int (round_half_even (x * 100)) / 100)"
| "round2 v = v"

text \<open>A Python number is an int or a float; \<^verbatim>\<open>round(n, 2)\<close> returns an int unchanged.\<close>

datatype pynum = PyInt int | PyFloat double

fun py_round2 :: "pynum \<Rightarrow> pynum" where
  "py_round2 (PyInt n) = PyInt n"
| "py_round2 (PyFloat x) = PyFloat (round2 x)"

subsection \<open>Bytes, slices, ranges and decimal strings\<close>

type_synonym byte = "8 word"
type_synonym u32 = "32 word"

datatype py_error = OSError | StructError | ValueError | UnicodeEncodeError

text \<open>\<^verbatim>\<open>xs[a:b]\<close> for \<open>0 \<le> a \<le> b\<close>: the slice is cut short at the end of the sequence.\<close>

definition py_slice :: "'a list \<Rightarrow> nat \<Rightarrow> nat \<Rightarrow> 'a list" where
  "py_slice xs a b = take (b - a) (drop a xs)"

text \<open>\<^verbatim>\<open>range(start, stop, step)\<close> for a positive step.\<close>

definition py_range :: "nat \<Rightarrow> nat \<Rightarrow> nat \<Rightarrow> nat list" where
  "py_range start stop step =
     map (\<lambda>k. start + k * step) [0 ..< (stop - start + step - 1) div step]"

text \<open>One little-endian unsigned 32-bit field.\<close>

definition le_u32 :: "byte list \<Rightarrow> u32" where
  "le_u32 bs = word_of_nat (foldr (\<lambda>b acc. unat b + 256 * acc) bs 0)"

text \<open>\<^verbatim>\<open>struct.unpack('<8I', data)\<close>: \<^verbatim>\<open>struct.error\<close> unless \<open>data\<close> has exactly 32 bytes.\<close>

definition struct_unpack_8I :: "byte list \<Rightarrow> py_error + u32 list" where
  "struct_unpack_8I data =
     (if length data \<noteq> 32 then Inl StructError
      else Inr (map (\<lambda>k. le_u32 (py_slice data (4 * k) (4 * k + 4))) [0 ..< 8]))"

definition digit_char :: "nat \<Rightarrow> char" where
  "digit_char d = ''0123456789'' ! d"

fun nat_digits :: "nat \<Rightarrow> string" where
  "nat_digits n = (if n < 10 then [digit_char n] else nat_digits (n div 10) @ [digit_char (n mod 10)])"

text \<open>\<^verbatim>\<open>str(n)\<close> for an int.\<close>

definition str_int :: "int \<Rightarrow> string" where
  "str_int n = (if n < 0 then CHR ''-'' # nat_digits (nat (- n)) else nat_digits (nat n))"

text \<open>A field of \<^verbatim>\<open>strftime\<close> padded with zeros to two digits.\<close>

definition two_digits :: "int \<Rightarrow> string" where
  "two_digits n = (if 0 \<le> n \<and> n < 10 then CHR ''0'' # str_int n else str_int n)"

subsection \<open>The local calendar\<close>

text \<open>
  \<^verbatim>\<open>datetime.fromtimestamp\<close> converts seconds since the epoch to the local civil time.
  The time zone of the machine is a parameter: \<open>utc_offset t\<close> is the offset of local
  time from UTC, in seconds, in force at the instant \<open>t\<close>. Days are converted to a
  proleptic Gregorian date by the usual era computation (a 400-year era has 146097 days
  and starts on 1 March). A year outside 1..9999 is the conversion failure of the library.
\<close>

record datetime =
  year :: int
  month :: int
  day :: int
  hour :: int
  minute :: int
  second :: int

definition civil_from_days :: "int \<Rightarrow> int \<times> int \<times> int" where
  "civil_from_days days =
     (let z = days + 719468;
          era = z div 146097;
          doe = z mod 146097;
          yoe = (doe - doe div 1460 + doe div 36524 - doe div 146096) div 365;
          doy = doe - (365 * yoe + yoe div 4 - yoe div 100);
          mp = (5 * doy + 2) div 153;
          d = doy - (153 * mp + 2) div 5 + 1;
          m = (if mp < 10 then mp + 3 else mp - 9);
          y = yoe + era * 400
      in (if m \<le> 2 then y + 1 else y, m, d))"

definition fromtimestamp :: "(int \<Rightarrow> int) \<Rightarrow> int \<Rightarrow> py_error + datetime" where
  "fromtimestamp utc_offset t =
     (let local = t + utc_offset t;
          s = local mod 86400
      in case civil_from_days (local div 86400) of
           (y, m, d) \<Rightarrow>
             if y < 1 \<or> 9999 < y then Inl ValueError
             else Inr \<lparr>year = y, month = m, day = d,
                       hour = s div 3600, minute = s mod 3600 div 60, second = s mod 60\<rparr>)"

text \<open>\<^verbatim>\<open>strftime('%Y-%m-%d')\<close> and \<^verbatim>\<open>strftime('%Y-%m-%d %H:%M:%S')\<close>.\<close>

definition strftime_date :: "datetime \<Rightarrow> string" where
  "strftime_date dt =
     str_int (year dt) @ ''-'' @ two_digits (month dt) @ ''-'' @ two_digits (day dt)"

definition strftime_datetime :: "datetime \<Rightarrow> string" where
  "strftime_datetime dt =
     strftime_date dt @ '' '' @ two_digits (hour dt) @ '':'' @ two_digits (minute dt)
       @ '':'' @ two_digits (second dt)"

subsection \<open>parse\_date\<close>

text \<open>
  The body of the \<^verbatim>\<open>try\<close> is the inner \<open>case\<close>; the bare \<^verbatim>\<open>except\<close> turns every error of
  the body into \<^verbatim>\<open>str(date_int)\<close>.
\<close>

definition parse_date :: "(int \<Rightarrow> int) \<Rightarrow> int \<Rightarrow> bool \<Rightarrow> string" where
  "parse_date utc_offset date_int include_time =
     (case (if 1500000000 < date_int \<and> date_int < 2000000000 then
              (case fromtimestamp utc_offset date_int of
                 Inl e \<Rightarrow> Inl e
               | Inr target_date \<Rightarrow>
                   Inr (if include_time then strftime_datetime target_date
                        else strftime_date target_date))
            else Inr (str_int date_int)) of
        Inl e \<Rightarrow> str_int date_int
      | Inr s \<Rightarrow> s)"

text \<open>The two output formats, as predicates on strings.\<close>

definition is_digit :: "char \<Rightarrow> bool" where
  "is_digit c = (c \<in> set ''0123456789'')"

fun is_date_string :: "string \<Rightarrow> bool" where
  "is_date_string [y1, y2, y3, y4, s1, m1, m2, s2, d1, d2] =
     (is_digit y1 \<and> is_digit y2 \<and> is_digit y3 \<and> is_digit y4 \<and> s1 = CHR ''-'' \<and>
      is_digit m1 \<and> is_digit m2 \<and> s2 = CHR ''-'' \<and> is_digit d1 \<and> is_digit d2)"
| "is_date_string _ = False"

definition is_datetime_string :: "string \<Rightarrow> bool" where
  "is_datetime_string s =
     (length s = 19 \<and> is_date_string (take 10 s) \<and> s ! 10 = CHR '' '' \<and>
      is_digit (s ! 11) \<and> is_digit (s ! 12) \<and> s ! 13 = CHR '':'' \<and>
      is_digit (s ! 14) \<and> is_digit (s ! 15) \<and> s ! 16 = CHR '':'' \<and>
      is_digit (s ! 17) \<and> is_digit (s ! 18))"

subsection \<open>\_detect\_data\_type\<close>

text \<open>\<^verbatim>\<open>str.lower\<close> on the ASCII letters, and the substring test \<^verbatim>\<open>sub in s\<close>.\<close>

definition lower_char :: "char \<Rightarrow> char" where
  "lower_char c =
     (if CHR ''A'' \<le> c \<and> c \<le> CHR ''Z'' then char_of (of_char c + (32 :: nat)) else c)"

fun contains :: "string \<Rightarrow> string \<Rightarrow> bool" where
  "contains [] sub = (sub = [])"
| "contains (c # cs) sub = (take (length sub) (c # cs) = sub \<or> contains cs sub)"

definition detect_data_type :: "string \<Rightarrow> bool" where
  "detect_data_type file_path =
     (let path_str = map lower_char file_path
      in contains path_str ''5m'' \<or> contains path_str ''min'')"

text \<open>
  \<^verbatim>\<open>Path(file_path).stem\<close> on a POSIX path: the last component that is neither empty
  nor \<^verbatim>\<open>.\<close>, without its last suffix.
\<close>

fun split_sep :: "char \<Rightarrow> string \<Rightarrow> string list" where
  "split_sep sep [] = [[]]"
| "split_sep sep (c # cs) =
     (if c = sep then [] # split_sep sep cs
      else case split_sep sep cs of [] \<Rightarrow> [[c]] | p # ps \<Rightarrow> (c # p) # ps)"

definition path_name :: "string \<Rightarrow> string" where
  "path_name file_path =
     (case filter (\<lambda>s. s \<noteq> [] \<and> s \<noteq> ''.'') (split_sep CHR ''/'' file_path) of
        [] \<Rightarrow> []
      | p # ps \<Rightarrow> last (p # ps))"

fun rfind :: "char \<Rightarrow> string \<Rightarrow> nat option" where
  "rfind c [] = None"
| "rfind c (x # xs) =
     (case rfind c xs of Some i \<Rightarrow> Some (Suc i) | None \<Rightarrow> if x = c then Some 0 else None)"

definition path_stem :: "string \<Rightarrow> string" where
  "path_stem file_path =
     (let name = path_name file_path
      in case rfind CHR ''.'' name of
           None \<Rightarrow> name
         | Some i \<Rightarrow> if 0 < i \<and> i < length name - 1 then take i name else name)"

subsection \<open>parse\_dat\_file: one record pair\<close>

definition record_size :: nat where
  "record_size = 32"

text \<open>
  The values the loop body computes from an unpacked pair before its quality checks
  (lines 101 to 116 of the source): the four scaled prices, the volume and the amount.
\<close>

record scaled =
  open_price :: double
  high_price :: double
  low_price :: double
  close_price :: double
  volume :: int
  amount :: pynum

definition scale_pair :: "bool \<Rightarrow> u32 list \<Rightarrow> u32 list \<Rightarrow> scaled" where
  "scale_pair is_intraday price_unpacked volume_unpacked =
     \<lparr>open_price = int_truediv (uint (price_unpacked ! 3)) 1000,
      high_price = int_truediv (uint (price_unpacked ! 4)) 1000,
      low_price = int_truediv (uint (price_unpacked ! 5)) 1000,
      close_price = int_truediv (uint (price_unpacked ! 6)) 1000,
      volume = (if is_intraday then uint (volume_unpacked ! 0)
                else uint (volume_unpacked ! 0) * 100),
      amount = (let raw_amount = uint (volume_unpacked ! 2)
                in if is_intraday
                   then (if 1000000 < raw_amount then PyFloat (int_truediv raw_amount 100)
                         else PyInt raw_amount)
                   else PyInt raw_amount)\<rparr>"

text \<open>The timestamp test of line 95 and the plausibility test of lines 99 and 100.\<close>

definition timestamp_valid :: "u32 list \<Rightarrow> bool" where
  "timestamp_valid price_unpacked =
     (1500000000 < uint (price_unpacked ! 2) \<and> uint (price_unpacked ! 2) < 2000000000)"

definition price_limit :: "bool \<Rightarrow> int" where
  "price_limit is_intraday = (if is_intraday then 10000000 else 1000000)"

definition prices_plausible :: "bool \<Rightarrow> u32 list \<Rightarrow> bool" where
  "prices_plausible is_intraday price_unpacked =
     (3 \<le> length (filter (\<lambda>x. 0 < uint x \<and> uint x < price_limit is_intraday)
                    (py_slice price_unpacked 3 7)))"

text \<open>The two \<^verbatim>\<open>continue\<close> conditions of lines 119 to 127.\<close>

definition quality_reject :: "scaled \<Rightarrow> bool" where
  "quality_reject sc =
     (let ps = [open_price sc, high_price sc, low_price sc, close_price sc]
      in list_all (\<lambda>p. feq p (Finite 0)) ps \<or> list_ex (\<lambda>p. flt p (Finite 0)) ps)"

definition logic_reject :: "scaled \<Rightarrow> bool" where
  "logic_reject sc =
     (flt (high_price sc) (low_price sc) \<or>
      flt (high_price sc) (py_max (open_price sc) (close_price sc)) \<or>
      flt (py_min (open_price sc) (close_price sc)) (low_price sc))"

text \<open>
  The dictionary appended to \<^verbatim>\<open>records\<close>. The key of the time field is \<^verbatim>\<open>datetime\<close> for
  intraday files and \<^verbatim>\<open>date\<close> otherwise; its value is kept in \<open>r_time\<close>.
\<close>

record bar =
  r_time :: string
  r_open :: double
  r_high :: double
  r_low :: double
  r_close :: double
  r_volume :: int
  r_amount :: pynum

definition emit :: "(int \<Rightarrow> int) \<Rightarrow> bool \<Rightarrow> int \<Rightarrow> scaled \<Rightarrow> bar" where
  "emit utc_offset is_intraday date_int sc =
     \<lparr>r_time = parse_date utc_offset date_int is_intraday,
      r_open = round2 (open_price sc),
      r_high = round2 (high_price sc),
      r_low = round2 (low_price sc),
      r_close = round2 (close_price sc),
      r_volume = volume sc,
      r_amount = py_round2 (amount sc)\<rparr>"

text \<open>
  The body of the loop after the length check: \<open>None\<close> when the iteration appends
  nothing (a failed test, a \<^verbatim>\<open>continue\<close>, or \<^verbatim>\<open>struct.error\<close> caught by the inner
  \<^verbatim>\<open>except\<close>), \<open>Some\<close> of the appended record otherwise.
\<close>

definition process_pair :: "(int \<Rightarrow> int) \<Rightarrow> bool \<Rightarrow> byte list \<Rightarrow> byte list \<Rightarrow> bar option" where
  "process_pair utc_offset is_intraday price_data volume_data =
     (case struct_unpack_8I price_data of
        Inl e \<Rightarrow> None
      | Inr price_unpacked \<Rightarrow>
          (case struct_unpack_8I volume_data of
             Inl e \<Rightarrow> None
           | Inr volume_unpacked \<Rightarrow>
               if timestamp_valid price_unpacked then
                 let date_int = uint (price_unpacked ! 2)
                 in if prices_plausible is_intraday price_unpacked then
                      let sc = scale_pair is_intraday price_unpacked volume_unpacked
                      in if quality_reject sc then None
                         else if logic_reject sc then None
                         else Some (emit utc_offset is_intraday date_int sc)
                    else None
               else None))"

subsection \<open>parse\_dat\_file: the loop and the table\<close>

text \<open>
  The \<^verbatim>\<open>for\<close> loop over \<^verbatim>\<open>range(0, record_count - 1, 2)\<close>, with \<^verbatim>\<open>records\<close> as accumulator;
  the \<^verbatim>\<open>break\<close> of line 87 returns the accumulator.
\<close>

fun scan_pairs :: "(int \<Rightarrow> int) \<Rightarrow> bool \<Rightarrow> byte list \<Rightarrow> nat list \<Rightarrow> bar list \<Rightarrow> bar list" where
  "scan_pairs utc_offset is_intraday data [] records = records"
| "scan_pairs utc_offset is_intraday data (i # rest) records =
     (let price_pos = i * record_size;
          price_data = py_slice data price_pos (price_pos + record_size);
          volume_pos = (i + 1) * record_size;
          volume_data = py_slice data volume_pos (volume_pos + record_size)
      in if length price_data < record_size \<or> length volume_data < record_size then records
         else case process_pair utc_offset is_intraday price_data volume_data of
                None \<Rightarrow> scan_pairs utc_offset is_intraday data rest records
              | Some r \<Rightarrow> scan_pairs utc_offset is_intraday data rest (records @ [r]))"

text \<open>
  A row of the returned table, in the column order of line 162, and the table itself.
  \<^verbatim>\<open>pd.DataFrame()\<close> is the table without columns and rows.
\<close>

record row =
  code :: string
  time :: string
  open_col :: double
  high_col :: double
  low_col :: double
  close_col :: double
  volume_col :: int
  amount_col :: pynum
  pct_change :: double

record dataframe =
  columns :: "string list"
  rows :: "row list"

definition empty_dataframe :: dataframe where
  "empty_dataframe = \<lparr>columns = [], rows = []\<rparr>"

text \<open>
  \<^verbatim>\<open>Series.pct_change() * 100\<close>: each value divided by its predecessor, minus one, times
  100; the predecessor of the first value is the missing value NaN.
\<close>

definition shift1 :: "double list \<Rightarrow> double list" where
  "shift1 xs = (if xs = [] then [] else NaN # butlast xs)"

definition pct_change_100 :: "double list \<Rightarrow> double list" where
  "pct_change_100 xs =
     map (\<lambda>(c, p). fmul (fsub (fdiv c p) (Finite 1)) (Finite 100)) (zip xs (shift1 xs))"

text \<open>
  \<^verbatim>\<open>sort_values\<close> orders the rows by the time string. The order among rows with equal
  keys, which pandas leaves to its sorting algorithm, is the order of arrival here; the
  table is built by \<open>table_of\<close> from the ordered records, so that what is proved of
  \<open>table_of\<close> holds for every order pandas may choose.
\<close>

definition sort_values :: "bar list \<Rightarrow> bar list" where
  "sort_values records = sort_key r_time records"

text \<open>
  \<^verbatim>\<open>pd.DataFrame(records)\<close> gives the amount column one type: when some amount is a
  float, the ints of the column become floats.
\<close>

fun is_float :: "pynum \<Rightarrow> bool" where
  "is_float (PyFloat x) = True"
| "is_float (PyInt n) = False"

fun to_float64 :: "pynum \<Rightarrow> pynum" where
  "to_float64 (PyInt n) = PyFloat (fl (of_int n))"
| "to_float64 (PyFloat x) = PyFloat x"

definition amount_column :: "pynum list \<Rightarrow> pynum list" where
  "amount_column xs = (if list_ex is_float xs then map to_float64 xs else xs)"

definition make_row :: "string \<Rightarrow> bar \<Rightarrow> pynum \<Rightarrow> double \<Rightarrow> row" where
  "make_row stock_code r a pct =
     \<lparr>code = stock_code, time = r_time r, open_col = r_open r, high_col = r_high r,
      low_col = r_low r, close_col = r_close r, volume_col = r_volume r,
      amount_col = a, pct_change = pct\<rparr>"

text \<open>Lines 148 to 164: the table of the records in their final order.\<close>

definition table_of :: "bool \<Rightarrow> string \<Rightarrow> bar list \<Rightarrow> dataframe" where
  "table_of is_intraday file_path sorted_records =
     (let stock_code = path_stem file_path;
          time_field = (if is_intraday then ''datetime'' else ''date'');
          amounts = amount_column (map r_amount sorted_records);
          pcts = pct_change_100 (map r_close sorted_records)
      in \<lparr>columns = [''code'', time_field, ''open'', ''high'', ''low'', ''close'',
                      ''volume'', ''amount'', ''pct_change''],
          rows = map (\<lambda>(r, a, pct). make_row stock_code r a pct)
                   (zip sorted_records (zip amounts pcts))\<rparr>)"

text \<open>Lines 144 to 164: the table built from the collected records.\<close>

definition build_table :: "bool \<Rightarrow> string \<Rightarrow> bar list \<Rightarrow> dataframe" where
  "build_table is_intraday file_path records =
     (if records = [] then empty_dataframe
      else table_of is_intraday file_path (sort_values records))"

text \<open>Lines 68 to 164: the body of the \<^verbatim>\<open>try\<close> once the file has been read.\<close>

definition parse_data :: "(int \<Rightarrow> int) \<Rightarrow> string \<Rightarrow> byte list \<Rightarrow> dataframe" where
  "parse_data utc_offset file_path data =
     (let record_count = length data div record_size
      in if record_count = 0 then empty_dataframe
         else
           let is_intraday = detect_data_type file_path;
               records = scan_pairs utc_offset is_intraday data
                           (py_range 0 (record_count - 1) 2) []
           in build_table is_intraday file_path records)"

text \<open>
  The file system is a partial map from paths to contents; a path outside its domain
  cannot be opened or read. The console is a predicate on messages: \<^verbatim>\<open>print\<close> of a
  message the console does not accept raises (a standard output whose encoding has no
  Chinese characters raises \<^verbatim>\<open>UnicodeEncodeError\<close> on both messages of the source).
\<close>

datatype message = ParseFailed string py_error | Progress nat nat string

definition py_print :: "(message \<Rightarrow> bool) \<Rightarrow> message \<Rightarrow> py_error + unit" where
  "py_print console m = (if console m then Inr () else Inl UnicodeEncodeError)"

definition read_file :: "(string \<rightharpoonup> byte list) \<Rightarrow> string \<Rightarrow> py_error + byte list" where
  "read_file fs file_path = (case fs file_path of None \<Rightarrow> Inl OSError | Some data \<Rightarrow> Inr data)"

text \<open>
  The outer \<^verbatim>\<open>except Exception\<close> prints its message and returns the empty table; an
  error of that \<^verbatim>\<open>print\<close> is raised inside the handler and reaches the caller.
\<close>

definition parse_dat_file ::
  "(message \<Rightarrow> bool) \<Rightarrow> (int \<Rightarrow> int) \<Rightarrow> (string \<rightharpoonup> byte list) \<Rightarrow> string
     \<Rightarrow> py_error + dataframe" where
  "parse_dat_file console utc_offset fs file_path =
     (case (case read_file fs file_path of
              Inl e \<Rightarrow> Inl e
            | Inr data \<Rightarrow> Inr (parse_data utc_offset file_path data)) of
        Inl e \<Rightarrow>
          (case py_print console (ParseFailed file_path e) of
             Inl e' \<Rightarrow> Inl e'
           | Inr u \<Rightarrow> Inr empty_dataframe)
      | Inr df \<Rightarrow> Inr df)"

subsection \<open>parse\_directory: the loop over the files\<close>

text \<open>
  Lines 190 to 201, for the files from position \<open>i\<close> on (the first file has position
  1) out of \<open>n_files\<close>: progress is printed at every hundredth file, and the tables that
  are not empty are collected and counted. An exception of \<^verbatim>\<open>print\<close> or of
  \<^verbatim>\<open>parse_dat_file\<close> ends the loop.
\<close>

fun parse_files ::
  "(message \<Rightarrow> bool) \<Rightarrow> (int \<Rightarrow> int) \<Rightarrow> (string \<rightharpoonup> byte list) \<Rightarrow> nat \<Rightarrow> nat \<Rightarrow> string list
     \<Rightarrow> dataframe list \<times> nat \<Rightarrow> py_error + dataframe list \<times> nat" where
  "parse_files console utc_offset fs n_files i [] acc = Inr acc"
| "parse_files console utc_offset fs n_files i (dat_file # rest) (all_data, successful_count) =
     (case (if i mod 100 = 0 then py_print console (Progress i n_files (path_name dat_file))
            else Inr ()) of
        Inl e \<Rightarrow> Inl e
      | Inr u \<Rightarrow>
          (case parse_dat_file console utc_offset fs dat_file of
             Inl e \<Rightarrow> Inl e
           | Inr df \<Rightarrow>
               if rows df \<noteq> []
               then parse_files console utc_offset fs n_files (i + 1) rest
                      (all_data @ [df], successful_count + 1)
               else parse_files console utc_offset fs n_files (i + 1) rest
                      (all_data, successful_count)))"

subsection \<open>Sample files\<close>

text \<open>
  Concrete inputs on which the theorems below are instantiated. The time zone is UTC.
  The first pair is the daily scenario of the specification: timestamp 1700000000, raw
  prices 10000, 10500, 9900 and 10200, volume field 500 and amount field 5000000. The
  second pair is five minutes later, with raw prices 10200, 10300, 10100 and 10250,
  volume field 300 and amount field 2000000. The third price record has the timestamp of
  the first and the raw prices 4, 4, 4 and 4; the fourth has the raw prices 10000, 10500,
  0 and 10200.
\<close>

definition utc :: "int \<Rightarrow> int" where
  "utc t = 0"

text \<open>A console that accepts every message, and one that accepts none.\<close>

definition utf8_console :: "message \<Rightarrow> bool" where
  "utf8_console m = True"

definition ascii_console :: "message \<Rightarrow> bool" where
  "ascii_console m = False"

definition price_record_1 :: "byte list" where
  "price_record_1 =
     [0, 0, 0, 0, 0, 0, 0, 0, 0, 241, 83, 101, 16, 39, 0, 0,
      4, 41, 0, 0, 172, 38, 0, 0, 216, 39, 0, 0, 0, 0, 0, 0]"

definition volume_record_1 :: "byte list" where
  "volume_record_1 =
     [244, 1, 0, 0, 0, 0, 0, 0, 64, 75, 76, 0, 0, 0, 0, 0,
      0, 0, 0, 0, 0, 0, 0, 0, 0, 0, 0, 0, 0, 0, 0, 0]"

definition price_record_2 :: "byte list" where
  "price_record_2 =
     [0, 0, 0, 0, 0, 0, 0, 0, 44, 242, 83, 101, 216, 39, 0, 0,
      60, 40, 0, 0, 116, 39, 0, 0, 10, 40, 0, 0, 0, 0, 0, 0]"

definition volume_record_2 :: "byte list" where
  "volume_record_2 =
     [44, 1, 0, 0, 0, 0, 0, 0, 128, 132, 30, 0, 0, 0, 0, 0,
      0, 0, 0, 0, 0, 0, 0, 0, 0, 0, 0, 0, 0, 0, 0, 0]"

definition price_record_3 :: "byte list" where
  "price_record_3 =
     [0, 0, 0, 0, 0, 0, 0, 0, 0, 241, 83, 101, 4, 0, 0, 0,
      4, 0, 0, 0, 4, 0, 0, 0, 4, 0, 0, 0, 0, 0, 0, 0]"

definition price_record_4 :: "byte list" where
  "price_record_4 =
     [0, 0, 0, 0, 0, 0, 0, 0, 0, 241, 83, 101, 16, 39, 0, 0,
      4, 41, 0, 0, 0, 0, 0, 0, 216, 39, 0, 0, 0, 0, 0, 0]"

definition sample_fs :: "string \<rightharpoonup> byte list" where
  "sample_fs =
     [''data/szdayK/000001.DAT'' \<mapsto> price_record_1 @ volume_record_1,
      ''data/sh5mK/600000.DAT'' \<mapsto>
         price_record_2 @ volume_record_2 @ price_record_1 @ volume_record_1,
      ''data/szdayK/000002.DAT'' \<mapsto> price_record_3 @ volume_record_1,
      ''data/szdayK/000003.DAT'' \<mapsto> price_record_1 @ volume_record_1 @ price_record_2,
      ''data/szdayK/000004.DAT'' \<mapsto> price_record_1 @ volume_record_1 @ [1, 2, 3],
      ''data/szdayK/000005.DAT'' \<mapsto> [1, 2, 3],
      ''data/szdayK/000006.DAT'' \<mapsto> volume_record_1 @ volume_record_1,
      ''data/sh5mK/000007.DAT'' \<mapsto>
         price_record_3 @ volume_record_1 @ price_record_2 @ volume_record_2]"

text \<open>The tables expected for four of the files.\<close>

definition daily_row :: row where
  "daily_row =
     \<lparr>code = ''000001'', time = ''2023-11-14'', open_col = Finite 10,
      high_col = Finite (21 / 2),
      low_col = Finite (5573204538870989 / 562949953421312),
      close_col = Finite (2871044762448691 / 281474976710656),
      volume_col = 50000, amount_col = PyInt 5000000, pct_change = NaN\<rparr>"

definition daily_table :: dataframe where
  "daily_table =
     \<lparr>columns = [''code'', ''date'', ''open'', ''high'', ''low'', ''close'',
                  ''volume'', ''amount'', ''pct_change''],
      rows = [daily_row]\<rparr>"

definition intraday_row_1 :: row where
  "intraday_row_1 =
     \<lparr>code = ''600000'', time = ''2023-11-14 22:13:20'', open_col = Finite 10,
      high_col = Finite (21 / 2),
      low_col = Finite (5573204538870989 / 562949953421312),
      close_col = Finite (2871044762448691 / 281474976710656),
      volume_col = 500, amount_col = PyFloat (Finite 50000), pct_change = NaN\<rparr>"

definition intraday_row_2 :: row where
  "intraday_row_2 =
     \<lparr>code = ''600000'', time = ''2023-11-14 22:18:20'', open_col = Finite (2871044762448691 / 281474976710656),
      high_col = Finite (2899192260119757 / 281474976710656),
      low_col = Finite (5685794529555251 / 562949953421312),
      close_col = Finite (41 / 4),
      volume_col = 300, amount_col = PyFloat (Finite 20000), pct_change = Finite (137977929760125 / 281474976710656)\<rparr>"

definition intraday_table :: dataframe where
  "intraday_table =
     \<lparr>columns = [''code'', ''datetime'', ''open'', ''high'', ''low'', ''close'',
                  ''volume'', ''amount'', ''pct_change''],
      rows = [intraday_row_1, intraday_row_2]\<rparr>"






section \<open>Properties of the arithmetic\<close>

subsection \<open>Rounding is monotone\<close>

lemma round_half_even_floor: "\<lfloor>x\<rfloor> \<le> round_half_even x"
  by (simp add: round_half_even_def Let_def)

lemma round_half_even_le_succ: "round_half_even x \<le> \<lfloor>x\<rfloor> + 1"
  by (simp add: round_half_even_def Let_def)

lemma round_half_even_of_int [simp]: "round_half_even (of_int n) = n"
  by (simp add: round_half_even_def Let_def)

lemma round_half_even_mono:
  assumes "x \<le> y"
  shows "round_half_even x \<le> round_half_even y"
proof (cases "\<lfloor>x\<rfloor> = \<lfloor>y\<rfloor>")
  case True
  with assms show ?thesis
    by (auto simp: round_half_even_def Let_def)
next
  case False
  with assms have "\<lfloor>x\<rfloor> < \<lfloor>y\<rfloor>"
    using floor_mono [of x y] by linarith
  then have "round_half_even x \<le> \<lfloor>y\<rfloor>"
    using round_half_even_le_succ [of x] by linarith
  then show ?thesis
    using round_half_even_floor [of y] by linarith
qed

lemma round_half_even_le_int:
  assumes "x \<le> of_int n"
  shows "round_half_even x \<le> n"
  using round_half_even_mono [OF assms] by simp

lemma round_half_even_ge_int:
  assumes "of_int n \<le> x"
  shows "n \<le> round_half_even x"
  using round_half_even_mono [OF assms] by simp

lemma powi_neg: "0 \<le> k \<Longrightarrow> (2::rat) powi (- k) = 1 / 2 ^ nat k"
  by (cases "k = 0") (simp_all add: power_int_def power_one_over)

lemma powi_pos: "0 \<le> k \<Longrightarrow> (2::rat) powi k = 2 ^ nat k"
  by (simp add: power_int_def)

lemma ilog2_lower:
  assumes "0 < x"
  shows "2 powi ilog2 x \<le> x"
proof (cases "1 \<le> x")
  case True
  then have pos: "0 < \<lfloor>x\<rfloor>" by linarith
  from bitlen_bounds [OF pos] have "(2::int) ^ nat (bitlen \<lfloor>x\<rfloor> - 1) \<le> \<lfloor>x\<rfloor>" ..
  then have "rat_of_int (2 ^ nat (bitlen \<lfloor>x\<rfloor> - 1)) \<le> of_int \<lfloor>x\<rfloor>"
    by (simp only: of_int_le_iff)
  also have "\<dots> \<le> x" by simp
  finally have "(2::rat) ^ nat (bitlen \<lfloor>x\<rfloor> - 1) \<le> x" by simp
  moreover have "1 \<le> bitlen \<lfloor>x\<rfloor>"
    using pos bitlen_eq_zero_iff [of "\<lfloor>x\<rfloor>"] bitlen_nonneg [of "\<lfloor>x\<rfloor>"] by linarith
  ultimately show ?thesis
    using True by (simp add: ilog2_def powi_pos)
next
  case False
  define m where "m = \<lceil>1 / x\<rceil> - 1"
  from False assms have "1 < 1 / x" by (simp add: field_simps)
  then have pos: "0 < m" unfolding m_def by linarith
  from bitlen_bounds [OF pos] have "m < 2 ^ nat (bitlen m)" ..
  then have "m + 1 \<le> 2 ^ nat (bitlen m)" by simp
  then have "rat_of_int (m + 1) \<le> rat_of_int (2 ^ nat (bitlen m))"
    by (simp only: of_int_le_iff)
  moreover have "1 / x \<le> rat_of_int (m + 1)"
    unfolding m_def by simp
  ultimately have "1 / x \<le> 2 ^ nat (bitlen m)" by simp
  with assms have "1 / 2 ^ nat (bitlen m) \<le> x"
    by (simp add: field_simps)
  moreover have "1 \<le> bitlen m"
    using pos bitlen_eq_zero_iff [of m] bitlen_nonneg [of m] by linarith
  then have "(2::rat) powi (- bitlen m) = 1 / 2 ^ nat (bitlen m)"
    by (intro powi_neg) simp
  moreover have "ilog2 x = - bitlen m"
    using False by (simp add: ilog2_def m_def)
  ultimately show ?thesis by simp
qed

lemma ilog2_upper:
  assumes "0 < x"
  shows "x < 2 powi (ilog2 x + 1)"
proof (cases "1 \<le> x")
  case True
  then have pos: "0 < \<lfloor>x\<rfloor>" by linarith
  from bitlen_bounds [OF pos] have "\<lfloor>x\<rfloor> < 2 ^ nat (bitlen \<lfloor>x\<rfloor>)" ..
  then have "\<lfloor>x\<rfloor> + 1 \<le> 2 ^ nat (bitlen \<lfloor>x\<rfloor>)" by simp
  then have "rat_of_int (\<lfloor>x\<rfloor> + 1) \<le> rat_of_int (2 ^ nat (bitlen \<lfloor>x\<rfloor>))"
    by (simp only: of_int_le_iff)
  moreover have "x < rat_of_int (\<lfloor>x\<rfloor> + 1)" by linarith
  ultimately have "x < 2 ^ nat (bitlen \<lfloor>x\<rfloor>)" by simp
  moreover have "0 \<le> bitlen \<lfloor>x\<rfloor>" by (rule bitlen_nonneg)
  ultimately show ?thesis
    using True by (simp add: ilog2_def powi_pos)
next
  case False
  define m where "m = \<lceil>1 / x\<rceil> - 1"
  from False assms have "1 < 1 / x" by (simp add: field_simps)
  then have pos: "0 < m" unfolding m_def by linarith
  have k1: "1 \<le> bitlen m"
    using pos bitlen_eq_zero_iff [of m] bitlen_nonneg [of m] by linarith
  from bitlen_bounds [OF pos] have "2 ^ nat (bitlen m - 1) \<le> m" ..
  then have "rat_of_int (2 ^ nat (bitlen m - 1)) \<le> rat_of_int m"
    by (simp only: of_int_le_iff)
  moreover have "rat_of_int m < 1 / x"
    unfolding m_def by linarith
  ultimately have "rat_of_int (2 ^ nat (bitlen m - 1)) < 1 / x" by (rule le_less_trans)
  then have "2 ^ nat (bitlen m - 1) < 1 / x" by simp
  with assms have "x < 1 / 2 ^ nat (bitlen m - 1)"
    by (simp add: field_simps)
  moreover have "(2::rat) powi (- (bitlen m - 1)) = 1 / 2 ^ nat (bitlen m - 1)"
    using k1 by (intro powi_neg) simp
  moreover have "ilog2 x + 1 = - (bitlen m - 1)"
    using False by (simp add: ilog2_def m_def)
  ultimately show ?thesis by simp
qed

lemma ilog2_mono:
  assumes "0 < x" "x \<le> y"
  shows "ilog2 x \<le> ilog2 y"
proof (rule ccontr)
  assume "\<not> ilog2 x \<le> ilog2 y"
  then have "ilog2 y + 1 \<le> ilog2 x" by simp
  then have "(2::rat) powi (ilog2 y + 1) \<le> 2 powi ilog2 x"
    by (intro power_int_increasing) simp_all
  moreover have "y < 2 powi (ilog2 y + 1)"
    using assms by (intro ilog2_upper) simp
  moreover have "2 powi ilog2 x \<le> x"
    using assms by (intro ilog2_lower)
  ultimately show False using assms by linarith
qed


lemma round_binary64_pos_eq:
  assumes "0 < x"
  shows "round_binary64 x =
    of_int (round_half_even (x / 2 powi binary64_exponent x)) * 2 powi binary64_exponent x"
  using assms by (simp add: round_binary64_def Let_def)

lemma round_binary64_nonneg:
  assumes "0 \<le> x"
  shows "0 \<le> round_binary64 x"
proof (cases "x = 0")
  case True
  then show ?thesis by (simp add: round_binary64_def)
next
  case False
  with assms have pos: "0 < x" by simp
  have "0 \<le> x / 2 powi binary64_exponent x"
    using assms by simp
  then have "0 \<le> round_half_even (x / 2 powi binary64_exponent x)"
    using round_half_even_ge_int [of 0] by simp
  then show ?thesis
    by (simp add: round_binary64_pos_eq [OF pos])
qed

lemma round_binary64_mono_pos:
  assumes "0 < x" "x \<le> y"
  shows "round_binary64 x \<le> round_binary64 y"
proof -
  define ex where "ex = binary64_exponent x"
  define ey where "ey = binary64_exponent y"
  from assms have ypos: "0 < y" by simp
  have rx: "round_binary64 x = of_int (round_half_even (x / 2 powi ex)) * 2 powi ex"
    unfolding ex_def by (rule round_binary64_pos_eq [OF assms(1)])
  have ry: "round_binary64 y = of_int (round_half_even (y / 2 powi ey)) * 2 powi ey"
    unfolding ey_def by (rule round_binary64_pos_eq [OF ypos])
  have le: "ex \<le> ey"
    using ilog2_mono [OF assms] by (simp add: ex_def ey_def binary64_exponent_def)
  show ?thesis
  proof (cases "ex = ey")
    case True
    have "x / 2 powi ey \<le> y / 2 powi ey"
      using assms(2) by (simp add: divide_right_mono)
    then have "round_half_even (x / 2 powi ey) \<le> round_half_even (y / 2 powi ey)"
      by (rule round_half_even_mono)
    then have "rat_of_int (round_half_even (x / 2 powi ey)) \<le> of_int (round_half_even (y / 2 powi ey))"
      by (simp only: of_int_le_iff)
    then show ?thesis
      unfolding rx ry True by (intro mult_right_mono) simp_all
  next
    case False
    with le have lt: "ex + 1 \<le> ey" by simp
    then have "ey = ilog2 y - 52"
      by (simp add: ex_def ey_def binary64_exponent_def max_def split: if_splits)
    then have "2 powi (ey + 52) \<le> y"
      using ilog2_lower [OF ypos] by simp
    then have "2 powi ey * 2 ^ 52 \<le> y"
      by (simp add: power_int_add)
    then have "rat_of_int (2 ^ 52) \<le> y / 2 powi ey"
      by (simp add: field_simps)
    then have "2 ^ 52 \<le> round_half_even (y / 2 powi ey)"
      by (rule round_half_even_ge_int)
    then have "rat_of_int (2 ^ 52) \<le> of_int (round_half_even (y / 2 powi ey))"
      by (simp only: of_int_le_iff)
    then have "rat_of_int (2 ^ 52) * 2 powi ey \<le> round_binary64 y"
      unfolding ry by (intro mult_right_mono) simp_all
    then have lower: "2 powi (ey + 52) \<le> round_binary64 y"
      by (simp add: power_int_add mult.commute)
    have "ilog2 x + 1 \<le> ex + 53"
      by (simp add: ex_def binary64_exponent_def)
    then have "(2::rat) powi (ilog2 x + 1) \<le> 2 powi (ex + 53)"
      by (intro power_int_increasing) simp_all
    with ilog2_upper [OF assms(1)] have "x \<le> 2 powi (ex + 53)" by linarith
    then have "x \<le> 2 powi ex * 2 ^ 53"
      by (simp add: power_int_add)
    then have "x / 2 powi ex \<le> rat_of_int (2 ^ 53)"
      by (simp add: field_simps)
    then have "round_half_even (x / 2 powi ex) \<le> 2 ^ 53"
      by (rule round_half_even_le_int)
    then have "rat_of_int (round_half_even (x / 2 powi ex)) \<le> of_int (2 ^ 53)"
      by (simp only: of_int_le_iff)
    then have "round_binary64 x \<le> rat_of_int (2 ^ 53) * 2 powi ex"
      unfolding rx by (intro mult_right_mono) simp_all
    then have "round_binary64 x \<le> 2 powi (ex + 53)"
      by (simp add: power_int_add mult.commute)
    also have "\<dots> \<le> 2 powi (ey + 52)"
      using lt by (intro power_int_increasing) simp_all
    finally show ?thesis using lower by linarith
  qed
qed

lemma round_binary64_mono:
  assumes "0 \<le> x" "x \<le> y"
  shows "round_binary64 x \<le> round_binary64 y"
proof (cases "x = 0")
  case True
  with assms have "0 \<le> y" by simp
  then have "0 \<le> round_binary64 y" by (rule round_binary64_nonneg)
  then show ?thesis using True by (simp add: round_binary64_def)
next
  case False
  with assms show ?thesis by (intro round_binary64_mono_pos) simp_all
qed

lemma round_binary64_2p32: "round_binary64 4294967296 = 4294967296"
  by code_simp

lemma ilog2_2p32: "ilog2 4294967296 = 32"
  by code_simp

lemma round_binary64_one: "round_binary64 1 = 1"
  by code_simp

lemma round_binary64_milli: "0 < round_binary64 (1 / 1000)"
  by code_simp

lemma round_binary64_small:
  assumes "0 \<le> x" "x \<le> 4294967296"
  shows "0 \<le> round_binary64 x" "round_binary64 x \<le> 4294967296"
proof -
  show "0 \<le> round_binary64 x" using assms(1) by (rule round_binary64_nonneg)
  show "round_binary64 x \<le> 4294967296"
    using round_binary64_mono [OF assms] by (simp add: round_binary64_2p32)
qed

lemma fl_small:
  assumes "0 \<le> x" "x \<le> 4294967296"
  shows "fl x = Finite (round_binary64 x)"
proof (cases "round_binary64 x = 0")
  case True
  then show ?thesis by (simp add: fl_def)
next
  case False
  with round_binary64_small [OF assms] have pos: "0 < round_binary64 x" by simp
  have "ilog2 (round_binary64 x) \<le> ilog2 4294967296"
    using pos round_binary64_small(2) [OF assms] by (rule ilog2_mono)
  then have "ilog2 \<bar>round_binary64 x\<bar> < 1024"
    using pos by (simp add: ilog2_2p32)
  with False show ?thesis by (simp add: fl_def Let_def)
qed

lemma int_truediv_1000:
  assumes "0 \<le> n" "n < 4294967296"
  shows "\<exists>r. int_truediv n 1000 = Finite r \<and> 0 \<le> r \<and> r \<le> 4294967296 \<and> (r = 0 \<longleftrightarrow> n = 0)"
proof -
  define a where "a = round_binary64 (of_int n)"
  have n0: "(0::rat) \<le> of_int n" and n1: "rat_of_int n \<le> 4294967296"
    using assms by simp_all
  have fa: "fl (of_int n) = Finite a"
    unfolding a_def by (rule fl_small [OF n0 n1])
  have a0: "0 \<le> a" and a1: "a \<le> 4294967296"
    unfolding a_def by (rule round_binary64_small [OF n0 n1])+
  have q0: "0 \<le> a / 1000" using a0 by simp
  have q1: "a / 1000 \<le> 4294967296" using a0 a1 by simp
  define r where "r = round_binary64 (a / 1000)"
  have "int_truediv n 1000 = fl (a / 1000)"
    by (simp add: int_truediv_def fa)
  then have eq: "int_truediv n 1000 = Finite r"
    unfolding r_def by (simp add: fl_small [OF q0 q1])
  have r0: "0 \<le> r" and r1: "r \<le> 4294967296"
    unfolding r_def by (rule round_binary64_small [OF q0 q1])+
  have "r = 0 \<longleftrightarrow> n = 0"
  proof (cases "n = 0")
    case True
    then show ?thesis by (simp add: r_def a_def round_binary64_def)
  next
    case False
    with assms have "(1::rat) \<le> of_int n" by simp
    then have "round_binary64 1 \<le> a"
      unfolding a_def by (intro round_binary64_mono) simp_all
    then have "1 / 1000 \<le> a / 1000" by (simp add: round_binary64_one)
    then have "round_binary64 (1 / 1000) \<le> r"
      unfolding r_def by (intro round_binary64_mono) simp_all
    with round_binary64_milli have "0 < r" by linarith
    with False show ?thesis by simp
  qed
  with eq r0 r1 show ?thesis by blast
qed

lemma round2_small:
  assumes "0 \<le> x" "x \<le> 4294967296"
  shows "round2 (Finite x) = Finite (round_binary64 (of_int (round_half_even (x * 100)) / 100))"
    and "0 \<le> round_binary64 (of_int (round_half_even (x * 100)) / 100)"
proof -
  have "0 \<le> round_half_even (x * 100)"
    using assms(1) by (intro round_half_even_ge_int) simp
  then have lo: "0 \<le> rat_of_int (round_half_even (x * 100)) / 100" by simp
  have "x * 100 \<le> rat_of_int 429496729600" using assms(2) by simp
  then have "round_half_even (x * 100) \<le> 429496729600"
    by (rule round_half_even_le_int)
  then have "rat_of_int (round_half_even (x * 100)) \<le> 429496729600"
    by (metis of_int_le_iff of_int_numeral)
  then have hi: "rat_of_int (round_half_even (x * 100)) / 100 \<le> 4294967296" by simp
  show "round2 (Finite x) = Finite (round_binary64 (of_int (round_half_even (x * 100)) / 100))"
    by (simp add: fl_small [OF lo hi])
  show "0 \<le> round_binary64 (of_int (round_half_even (x * 100)) / 100)"
    using lo by (rule round_binary64_nonneg)
qed

lemma round2_mono:
  assumes "0 \<le> x" "x \<le> y" "y \<le> 4294967296"
  shows "\<exists>a b. round2 (Finite x) = Finite a \<and> round2 (Finite y) = Finite b \<and> 0 \<le> a \<and> a \<le> b"
proof -
  have y0: "0 \<le> y" and x1: "x \<le> 4294967296" using assms by simp_all
  have "round_half_even (x * 100) \<le> round_half_even (y * 100)"
    using assms(2) by (intro round_half_even_mono) simp
  then have le: "rat_of_int (round_half_even (x * 100)) / 100 \<le> of_int (round_half_even (y * 100)) / 100"
    by simp
  have "0 \<le> round_half_even (x * 100)"
    using assms(1) by (intro round_half_even_ge_int) simp
  then have lo: "0 \<le> rat_of_int (round_half_even (x * 100)) / 100" by simp
  have "round_binary64 (of_int (round_half_even (x * 100)) / 100)
      \<le> round_binary64 (of_int (round_half_even (y * 100)) / 100)"
    using lo le by (rule round_binary64_mono)
  then show ?thesis
    using round2_small [OF assms(1) x1] round2_small [OF y0 assms(3)] by simp
qed

lemma uint_u32_bounds: "0 \<le> uint (w :: u32)" "uint (w :: u32) < 4294967296"
  using uint_lt2p [of w] by simp_all

lemma process_pair_SomeD:
  assumes "process_pair utc_offset is_intraday price_data volume_data = Some b"
  shows "\<exists>p v. struct_unpack_8I price_data = Inr p \<and> struct_unpack_8I volume_data = Inr v \<and>
           timestamp_valid p \<and> prices_plausible is_intraday p \<and>
           \<not> quality_reject (scale_pair is_intraday p v) \<and>
           \<not> logic_reject (scale_pair is_intraday p v) \<and>
           b = emit utc_offset is_intraday (uint (p ! 2)) (scale_pair is_intraday p v)"
  using assms
  by (auto simp: process_pair_def Let_def split: sum.splits if_splits)

lemma scaled_prices_finite:
  "\<exists>op hp lp cp.
      open_price (scale_pair i p v) = Finite op \<and> high_price (scale_pair i p v) = Finite hp \<and>
      low_price (scale_pair i p v) = Finite lp \<and> close_price (scale_pair i p v) = Finite cp \<and>
      0 \<le> op \<and> op \<le> 4294967296 \<and> 0 \<le> hp \<and> hp \<le> 4294967296 \<and>
      0 \<le> lp \<and> lp \<le> 4294967296 \<and> 0 \<le> cp \<and> cp \<le> 4294967296 \<and>
      (op = 0 \<longleftrightarrow> uint (p ! 3) = 0) \<and> (hp = 0 \<longleftrightarrow> uint (p ! 4) = 0) \<and>
      (lp = 0 \<longleftrightarrow> uint (p ! 5) = 0) \<and> (cp = 0 \<longleftrightarrow> uint (p ! 6) = 0)"
proof -
  obtain op where "int_truediv (uint (p ! 3)) 1000 = Finite op" "0 \<le> op" "op \<le> 4294967296"
      "op = 0 \<longleftrightarrow> uint (p ! 3) = 0"
    using int_truediv_1000 [OF uint_u32_bounds, of "p ! 3"] by blast
  moreover obtain hp where "int_truediv (uint (p ! 4)) 1000 = Finite hp" "0 \<le> hp" "hp \<le> 4294967296"
      "hp = 0 \<longleftrightarrow> uint (p ! 4) = 0"
    using int_truediv_1000 [OF uint_u32_bounds, of "p ! 4"] by blast
  moreover obtain lp where "int_truediv (uint (p ! 5)) 1000 = Finite lp" "0 \<le> lp" "lp \<le> 4294967296"
      "lp = 0 \<longleftrightarrow> uint (p ! 5) = 0"
    using int_truediv_1000 [OF uint_u32_bounds, of "p ! 5"] by blast
  moreover obtain cp where "int_truediv (uint (p ! 6)) 1000 = Finite cp" "0 \<le> cp" "cp \<le> 4294967296"
      "cp = 0 \<longleftrightarrow> uint (p ! 6) = 0"
    using int_truediv_1000 [OF uint_u32_bounds, of "p ! 6"] by blast
  ultimately show ?thesis
    by (simp add: scale_pair_def)
qed

lemma logic_accept_order:
  assumes "\<not> logic_reject sc"
    and "open_price sc = Finite op" "high_price sc = Finite hp"
    and "low_price sc = Finite lp" "close_price sc = Finite cp"
  shows "lp \<le> op \<and> lp \<le> cp \<and> op \<le> hp \<and> cp \<le> hp"
  using assms by (auto simp: logic_reject_def py_max_def py_min_def split: if_splits)

subsection \<open>Where the rows of a table come from\<close>

lemma emitted_bar_order:
  assumes "process_pair utc_offset is_intraday price_data volume_data = Some b"
  shows "\<exists>ob hb lb cb. r_open b = Finite ob \<and> r_high b = Finite hb \<and> r_low b = Finite lb \<and>
           r_close b = Finite cb \<and> 0 \<le> lb \<and> lb \<le> ob \<and> lb \<le> cb \<and> ob \<le> hb \<and> cb \<le> hb"
proof -
  from process_pair_SomeD [OF assms] obtain p v where
    acc: "\<not> logic_reject (scale_pair is_intraday p v)"
    and b: "b = emit utc_offset is_intraday (uint (p ! 2)) (scale_pair is_intraday p v)"
    by blast
  define sc where "sc = scale_pair is_intraday p v"
  from scaled_prices_finite [of is_intraday p v] obtain op hp lp cp where
    fin: "open_price sc = Finite op" "high_price sc = Finite hp"
         "low_price sc = Finite lp" "close_price sc = Finite cp"
    and bnd: "0 \<le> op" "op \<le> 4294967296" "0 \<le> hp" "hp \<le> 4294967296"
             "0 \<le> lp" "lp \<le> 4294967296" "0 \<le> cp" "cp \<le> 4294967296"
    unfolding sc_def by blast
  from logic_accept_order [OF acc [folded sc_def] fin]
  have ord: "lp \<le> op" "lp \<le> cp" "op \<le> hp" "cp \<le> hp" by simp_all
  from round2_mono [OF bnd(5) ord(1) bnd(2)] obtain l1 o1 where
    1: "round2 (Finite lp) = Finite l1" "round2 (Finite op) = Finite o1" "0 \<le> l1" "l1 \<le> o1"
    by blast
  from round2_mono [OF bnd(5) ord(2) bnd(8)] obtain l2 c2 where
    2: "round2 (Finite lp) = Finite l2" "round2 (Finite cp) = Finite c2" "l2 \<le> c2"
    by blast
  from round2_mono [OF bnd(1) ord(3) bnd(4)] obtain o3 h3 where
    3: "round2 (Finite op) = Finite o3" "round2 (Finite hp) = Finite h3" "o3 \<le> h3"
    by blast
  from round2_mono [OF bnd(7) ord(4) bnd(4)] obtain c4 h4 where
    4: "round2 (Finite cp) = Finite c4" "round2 (Finite hp) = Finite h4" "c4 \<le> h4"
    by blast
  from 1 2 3 4 have "l2 = l1" "o3 = o1" "c4 = c2" "h4 = h3" by simp_all
  with 1 2 3 4 show ?thesis
    unfolding b sc_def [symmetric] by (simp add: emit_def fin)
qed

lemma scan_pairs_source:
  assumes "b \<in> set (scan_pairs utc_offset is_intraday data idxs records)"
  shows "b \<in> set records \<or>
         (\<exists>price_data volume_data. process_pair utc_offset is_intraday price_data volume_data = Some b)"
  using assms
proof (induction idxs arbitrary: records)
  case Nil
  then show ?case by simp
next
  case (Cons i rest)
  show ?case
  proof (cases "process_pair utc_offset is_intraday
      (py_slice data (i * record_size) (i * record_size + record_size))
      (py_slice data ((i + 1) * record_size) ((i + 1) * record_size + record_size))")
    case None
    with Cons show ?thesis
      by (auto simp: Let_def split: if_splits)
  next
    case (Some r)
    with Cons.prems have "b \<in> set records \<or>
        b \<in> set (scan_pairs utc_offset is_intraday data rest (records @ [r]))"
      by (auto simp: Let_def split: if_splits)
    then show ?thesis
    proof
      assume "b \<in> set records" then show ?thesis by simp
    next
      assume "b \<in> set (scan_pairs utc_offset is_intraday data rest (records @ [r]))"
      from Cons.IH [OF this] Some show ?thesis by auto
    qed
  qed
qed

lemma set_sort_values [simp]: "set (sort_values records) = set records"
  by (simp add: sort_values_def)

lemma length_sort_values [simp]: "length (sort_values records) = length records"
  by (simp add: sort_values_def)

lemma length_pct_change_100 [simp]: "length (pct_change_100 xs) = length xs"
  by (cases xs rule: rev_cases) (simp_all add: pct_change_100_def shift1_def)

lemma length_amount_column [simp]: "length (amount_column xs) = length xs"
  by (simp add: amount_column_def)

lemma rows_table_of:
  "rows (table_of is_intraday file_path srt) =
     map (\<lambda>(r, a, pct). make_row (path_stem file_path) r a pct)
       (zip srt (zip (amount_column (map r_amount srt)) (pct_change_100 (map r_close srt))))"
  by (simp add: table_of_def Let_def)

lemma parse_data_rows:
  assumes "r \<in> set (rows (parse_data utc_offset file_path data))"
  shows "\<exists>b a pct price_data volume_data.
           process_pair utc_offset (detect_data_type file_path) price_data volume_data = Some b \<and>
           r = make_row (path_stem file_path) b a pct"
proof -
  from assms have "\<exists>idxs b a pct.
      b \<in> set (scan_pairs utc_offset (detect_data_type file_path) data idxs []) \<and>
      r = make_row (path_stem file_path) b a pct"
    by (auto simp: parse_data_def build_table_def rows_table_of Let_def empty_dataframe_def
        split: if_splits dest!: set_zip_leftD) blast
  then obtain idxs b a pct where
    mem: "b \<in> set (scan_pairs utc_offset (detect_data_type file_path) data idxs [])"
    and r: "r = make_row (path_stem file_path) b a pct"
    by blast
  from scan_pairs_source [OF mem] obtain price_data volume_data where
    "process_pair utc_offset (detect_data_type file_path) price_data volume_data = Some b"
    by auto
  with r show ?thesis by blast
qed

lemma parse_dat_file_cases:
  assumes "parse_dat_file console utc_offset fs file_path = Inr df"
  shows "df = empty_dataframe \<or> (\<exists>data. fs file_path = Some data \<and> df = parse_data utc_offset file_path data)"
  using assms
  by (auto simp: parse_dat_file_def read_file_def py_print_def split: option.splits if_splits)

lemma parse_dat_file_rows:
  assumes "parse_dat_file console utc_offset fs file_path = Inr df" "r \<in> set (rows df)"
  shows "\<exists>b a pct price_data volume_data.
           process_pair utc_offset (detect_data_type file_path) price_data volume_data = Some b \<and>
           r = make_row (path_stem file_path) b a pct"
proof -
  from parse_dat_file_cases [OF assms(1)] assms(2) obtain data where
    "r \<in> set (rows (parse_data utc_offset file_path data))"
    by (auto simp: empty_dataframe_def)
  then show ?thesis by (rule parse_data_rows)
qed

section \<open>Evaluation on the sample files\<close>

lemma unpack_price_record_1:
  "struct_unpack_8I price_record_1 = Inr [0, 0, 1700000000, 10000, 10500, 9900, 10200, 0]"
  by (simp add: price_record_1_def struct_unpack_8I_def py_slice_def le_u32_def upt_conv_Cons)

lemma unpack_volume_record_1:
  "struct_unpack_8I volume_record_1 = Inr [500, 0, 5000000, 0, 0, 0, 0, 0]"
  by (simp add: volume_record_1_def struct_unpack_8I_def py_slice_def le_u32_def upt_conv_Cons)

lemma unpack_price_record_2:
  "struct_unpack_8I price_record_2 = Inr [0, 0, 1700000300, 10200, 10300, 10100, 10250, 0]"
  by (simp add: price_record_2_def struct_unpack_8I_def py_slice_def le_u32_def upt_conv_Cons)

lemma unpack_volume_record_2:
  "struct_unpack_8I volume_record_2 = Inr [300, 0, 2000000, 0, 0, 0, 0, 0]"
  by (simp add: volume_record_2_def struct_unpack_8I_def py_slice_def le_u32_def upt_conv_Cons)


lemma unpack_price_record_4:
  "struct_unpack_8I price_record_4 = Inr [0, 0, 1700000000, 10000, 10500, 0, 10200, 0]"
  by (simp add: price_record_4_def struct_unpack_8I_def py_slice_def le_u32_def upt_conv_Cons)

lemma process_pair_unpacked:
  assumes "struct_unpack_8I price_data = Inr p" "struct_unpack_8I volume_data = Inr v"
    and "timestamp_valid p" "prices_plausible is_intraday p"
    and "\<not> quality_reject (scale_pair is_intraday p v)"
    and "\<not> logic_reject (scale_pair is_intraday p v)"
  shows "process_pair utc_offset is_intraday price_data volume_data =
         Some (emit utc_offset is_intraday (uint (p ! 2)) (scale_pair is_intraday p v))"
  using assms by (simp add: process_pair_def)

lemma gates_1_daily:
  "timestamp_valid [0, 0, 1700000000, 10000, 10500, 9900, 10200, 0]"
  "prices_plausible False [0, 0, 1700000000, 10000, 10500, 9900, 10200, 0]"
  "\<not> quality_reject (scale_pair False [0, 0, 1700000000, 10000, 10500, 9900, 10200, 0] [500, 0, 5000000, 0, 0, 0, 0, 0])"
  "\<not> logic_reject (scale_pair False [0, 0, 1700000000, 10000, 10500, 9900, 10200, 0] [500, 0, 5000000, 0, 0, 0, 0, 0])"
  by code_simp+

lemma emit_1_daily:
  "emit utc False (uint ([0, 0, 1700000000, 10000, 10500, 9900, 10200, 0 :: u32] ! 2))
     (scale_pair False [0, 0, 1700000000, 10000, 10500, 9900, 10200, 0] [500, 0, 5000000, 0, 0, 0, 0, 0]) =
   \<lparr>r_time = ''2023-11-14'', r_open = Finite 10, r_high = Finite (21 / 2),
    r_low = Finite (5573204538870989 / 562949953421312),
    r_close = Finite (2871044762448691 / 281474976710656),
    r_volume = 50000, r_amount = PyInt 5000000\<rparr>"
  by code_simp

lemma process_pair_1_daily:
  "process_pair utc False price_record_1 volume_record_1 =
   Some \<lparr>r_time = ''2023-11-14'', r_open = Finite 10, r_high = Finite (21 / 2),
    r_low = Finite (5573204538870989 / 562949953421312),
    r_close = Finite (2871044762448691 / 281474976710656),
    r_volume = 50000, r_amount = PyInt 5000000\<rparr>"
  using process_pair_unpacked [OF unpack_price_record_1 unpack_volume_record_1 gates_1_daily, of utc]
  by (simp only: emit_1_daily)

lemma sample_record_lengths [simp]:
  "length price_record_1 = 32" "length volume_record_1 = 32"
  "length price_record_2 = 32" "length volume_record_2 = 32"
  "length price_record_3 = 32" "length price_record_4 = 32"
  by (simp_all add: price_record_1_def volume_record_1_def price_record_2_def
      volume_record_2_def price_record_3_def price_record_4_def)

lemma py_slice_append_whole: "length a = n \<Longrightarrow> py_slice (a @ rest) 0 n = a"
  by (simp add: py_slice_def)

lemma py_slice_whole: "length a = n \<Longrightarrow> py_slice a 0 n = a"
  by (simp add: py_slice_def)

lemma py_slice_append_skip:
  "length a = n \<Longrightarrow> n \<le> i \<Longrightarrow> py_slice (a @ rest) i j = py_slice rest (i - n) (j - n)"
  by (simp add: py_slice_def)

lemma detect_samples:
  "detect_data_type ''data/szdayK/000001.DAT'' = False"
  "detect_data_type ''data/sh5mK/600000.DAT'' = True"
  "detect_data_type ''data/szdayK/000002.DAT'' = False"
  by code_simp+

lemma stem_samples:
  "path_stem ''data/szdayK/000001.DAT'' = ''000001''"
  "path_stem ''data/sh5mK/600000.DAT'' = ''600000''"
  "path_stem ''data/szdayK/000002.DAT'' = ''000002''"
  by code_simp+

lemma scan_pairs_file_1:
  "scan_pairs utc False (price_record_1 @ volume_record_1) [0] [] =
   [\<lparr>r_time = ''2023-11-14'', r_open = Finite 10, r_high = Finite (21 / 2),
     r_low = Finite (5573204538870989 / 562949953421312),
     r_close = Finite (2871044762448691 / 281474976710656),
     r_volume = 50000, r_amount = PyInt 5000000\<rparr>]"
  by (simp add: record_size_def Let_def py_slice_whole py_slice_append_whole py_slice_append_skip
      process_pair_1_daily)

lemma parse_file_1:
  "parse_dat_file utf8_console utc sample_fs ''data/szdayK/000001.DAT'' =
   Inr daily_table"
  by (simp add: parse_dat_file_def read_file_def sample_fs_def parse_data_def build_table_def
      table_of_def amount_column_def
      record_size_def py_range_def detect_samples stem_samples scan_pairs_file_1 Let_def
      sort_values_def pct_change_100_def shift1_def make_row_def
      daily_table_def daily_row_def del: scan_pairs.simps)

lemma unpack_length:
  assumes "struct_unpack_8I data = Inr p"
  shows "length p = 8"
  using assms by (auto simp: struct_unpack_8I_def split: if_splits)

lemma py_slice_prices:
  assumes "length p = 8"
  shows "py_slice p 3 7 = [p ! 3, p ! 4, p ! 5, p ! 6]"
proof -
  from assms obtain a0 a1 a2 a3 a4 a5 a6 a7 where "p = [a0, a1, a2, a3, a4, a5, a6, a7]"
    by (auto simp: length_Suc_conv eval_nat_numeral)
  then show ?thesis by (simp add: py_slice_def)
qed

lemma plausible_at_most_one_zero:
  assumes "prices_plausible is_intraday p" "length p = 8"
  shows "\<not> (uint (p ! 3) = 0 \<and> uint (p ! 5) = 0)"
    and "\<not> (uint (p ! 4) = 0 \<and> uint (p ! 3) = 0)"
    and "\<not> (uint (p ! 6) = 0 \<and> uint (p ! 5) = 0)"
  using assms(1) unfolding prices_plausible_def py_slice_prices [OF assms(2)]
  by (auto split: if_splits)

lemma accepted_raw_positive_aux:
  assumes "process_pair utc_offset is_intraday price_data volume_data = Some b"
    and "struct_unpack_8I price_data = Inr p"
  shows "0 < uint (p ! 3) \<and> 0 < uint (p ! 4) \<and> 0 < uint (p ! 6)"
proof -
  from process_pair_SomeD [OF assms(1)] assms(2) obtain v where
    pl: "prices_plausible is_intraday p"
    and acc: "\<not> logic_reject (scale_pair is_intraday p v)"
    by auto
  have len: "length p = 8" using assms(2) by (rule unpack_length)
  define sc where "sc = scale_pair is_intraday p v"
  from scaled_prices_finite [of is_intraday p v] obtain op hp lp cp where
    fin: "open_price sc = Finite op" "high_price sc = Finite hp"
         "low_price sc = Finite lp" "close_price sc = Finite cp"
    and nn: "0 \<le> op" "0 \<le> hp" "0 \<le> lp" "0 \<le> cp"
    and z: "op = 0 \<longleftrightarrow> uint (p ! 3) = 0" "hp = 0 \<longleftrightarrow> uint (p ! 4) = 0"
           "lp = 0 \<longleftrightarrow> uint (p ! 5) = 0" "cp = 0 \<longleftrightarrow> uint (p ! 6) = 0"
    unfolding sc_def by blast
  from logic_accept_order [OF acc [folded sc_def] fin]
  have ord: "lp \<le> op" "lp \<le> cp" "op \<le> hp" "cp \<le> hp" by simp_all
  have "uint (p ! 3) \<noteq> 0"
  proof
    assume "uint (p ! 3) = 0"
    with z ord nn have "uint (p ! 3) = 0 \<and> uint (p ! 5) = 0" by auto
    with plausible_at_most_one_zero(1) [OF pl len] show False by simp
  qed
  moreover have "uint (p ! 4) \<noteq> 0"
  proof
    assume "uint (p ! 4) = 0"
    with z ord nn have "uint (p ! 4) = 0 \<and> uint (p ! 3) = 0" by auto
    with plausible_at_most_one_zero(2) [OF pl len] show False by simp
  qed
  moreover have "uint (p ! 6) \<noteq> 0"
  proof
    assume "uint (p ! 6) = 0"
    with z ord nn have "uint (p ! 6) = 0 \<and> uint (p ! 5) = 0" by auto
    with plausible_at_most_one_zero(3) [OF pl len] show False by simp
  qed
  ultimately show ?thesis
    using uint_u32_bounds(1) [of "p ! 3"] uint_u32_bounds(1) [of "p ! 4"]
      uint_u32_bounds(1) [of "p ! 6"] by linarith
qed

lemma gates_4_daily:
  "timestamp_valid [0, 0, 1700000000, 10000, 10500, 0, 10200, 0]"
  "prices_plausible False [0, 0, 1700000000, 10000, 10500, 0, 10200, 0]"
  "\<not> quality_reject (scale_pair False [0, 0, 1700000000, 10000, 10500, 0, 10200, 0] [500, 0, 5000000, 0, 0, 0, 0, 0])"
  "\<not> logic_reject (scale_pair False [0, 0, 1700000000, 10000, 10500, 0, 10200, 0] [500, 0, 5000000, 0, 0, 0, 0, 0])"
  by code_simp+

lemma process_pair_4_daily:
  "\<exists>b. process_pair utc False price_record_4 volume_record_1 = Some b"
  using process_pair_unpacked [OF unpack_price_record_4 unpack_volume_record_1 gates_4_daily, of utc]
  by blast

lemma round_binary64_of_int:
  assumes "0 \<le> n" "n < 2 ^ 53"
  shows "round_binary64 (of_int n) = of_int n"
proof (cases "n = 0")
  case True
  then show ?thesis by (simp add: round_binary64_def)
next
  case False
  with assms have pos: "(0::rat) < of_int n" by simp
  define e where "e = binary64_exponent (of_int n)"
  have "rat_of_int n < of_int (2 ^ 53)" using assms(2) by (simp only: of_int_less_iff)
  then have "rat_of_int n < 2 powi 53" by simp
  with ilog2_lower [OF pos] have lt: "(2::rat) powi ilog2 (of_int n) < 2 powi 53" by linarith
  have "ilog2 (rat_of_int n) < 53"
  proof (rule ccontr)
    assume "\<not> ilog2 (rat_of_int n) < 53"
    then have "(2::rat) powi 53 \<le> 2 powi ilog2 (of_int n)"
      by (intro power_int_increasing) simp_all
    with lt show False by linarith
  qed
  then have e0: "e \<le> 0" by (simp add: e_def binary64_exponent_def)
  define k where "k = nat (- e)"
  have pe: "(2::rat) powi e = 1 / 2 ^ k"
    using e0 powi_neg [of "- e"] by (simp add: k_def)
  have "rat_of_int n / 2 powi e = of_int (n * 2 ^ k)" by (simp add: pe)
  then have "round_half_even (rat_of_int n / 2 powi e) = n * 2 ^ k"
    by (simp only: round_half_even_of_int)
  then show ?thesis
    by (simp add: round_binary64_pos_eq [OF pos] e_def [symmetric] pe)
qed

lemma int_truediv_u32:
  assumes "0 \<le> n" "n < 4294967296" "1 \<le> d"
  shows "int_truediv n d = Finite (round_binary64 (of_int n / d))"
proof -
  have n0: "(0::rat) \<le> of_int n" and n1: "rat_of_int n \<le> 4294967296"
    using assms by simp_all
  have "n < 2 ^ 53" using assms(2) by simp
  then have a: "fl (of_int n) = Finite (of_int n)"
    using fl_small [OF n0 n1] round_binary64_of_int [OF assms(1)] by simp
  have "rat_of_int n / d \<le> of_int n / 1"
    using n0 assms(3) by (intro divide_left_mono) simp_all
  then have q1: "rat_of_int n / d \<le> 4294967296" using n1 by simp
  have q0: "0 \<le> rat_of_int n / d" using n0 assms(3) by simp
  from assms(3) have "d \<noteq> 0" by simp
  then show ?thesis
    by (simp add: int_truediv_def a fl_small [OF q0 q1])
qed

lemma gates_2_intraday:
  "timestamp_valid [0, 0, 1700000300, 10200, 10300, 10100, 10250, 0]"
  "prices_plausible True [0, 0, 1700000300, 10200, 10300, 10100, 10250, 0]"
  "\<not> quality_reject (scale_pair True [0, 0, 1700000300, 10200, 10300, 10100, 10250, 0] [300, 0, 2000000, 0, 0, 0, 0, 0])"
  "\<not> logic_reject (scale_pair True [0, 0, 1700000300, 10200, 10300, 10100, 10250, 0] [300, 0, 2000000, 0, 0, 0, 0, 0])"
  by code_simp+

lemma emit_2_intraday:
  "emit utc True (uint ([0, 0, 1700000300, 10200, 10300, 10100, 10250, 0 :: u32] ! 2))
     (scale_pair True [0, 0, 1700000300, 10200, 10300, 10100, 10250, 0] [300, 0, 2000000, 0, 0, 0, 0, 0]) =
   \<lparr>r_time = ''2023-11-14 22:18:20'',
    r_open = Finite (2871044762448691 / 281474976710656),
    r_high = Finite (2899192260119757 / 281474976710656),
    r_low = Finite (5685794529555251 / 562949953421312),
    r_close = Finite (41 / 4),
    r_volume = 300, r_amount = PyFloat (Finite 20000)\<rparr>"
  by code_simp

lemma process_pair_2_intraday:
  "process_pair utc True price_record_2 volume_record_2 =
   Some \<lparr>r_time = ''2023-11-14 22:18:20'',
    r_open = Finite (2871044762448691 / 281474976710656),
    r_high = Finite (2899192260119757 / 281474976710656),
    r_low = Finite (5685794529555251 / 562949953421312),
    r_close = Finite (41 / 4),
    r_volume = 300, r_amount = PyFloat (Finite 20000)\<rparr>"
  using process_pair_unpacked [OF unpack_price_record_2 unpack_volume_record_2 gates_2_intraday, of utc]
  by (simp only: emit_2_intraday)

subsection \<open>Truncated files\<close>

lemma py_slice_take:
  assumes "b \<le> m"
  shows "py_slice (take m xs) a b = py_slice xs a b"
proof -
  have "min (b - a) (m - a) = b - a" using assms by simp
  then show ?thesis
    by (simp add: py_slice_def drop_take min.commute)
qed

lemma scan_pairs_take:
  assumes "\<forall>i \<in> set idxs. (i + 2) * record_size \<le> m"
  shows "scan_pairs utc_offset is_intraday (take m data) idxs records =
         scan_pairs utc_offset is_intraday data idxs records"
  using assms
proof (induction idxs arbitrary: records)
  case Nil
  then show ?case by simp
next
  case (Cons i rest)
  from Cons.prems have i: "(i + 2) * record_size \<le> m" by simp
  then have s1: "py_slice (take m data) (i * record_size) (i * record_size + record_size) =
      py_slice data (i * record_size) (i * record_size + record_size)"
    by (intro py_slice_take) (simp add: algebra_simps)
  from i have s2: "py_slice (take m data) ((i + 1) * record_size) ((i + 1) * record_size + record_size) =
      py_slice data ((i + 1) * record_size) ((i + 1) * record_size + record_size)"
    by (intro py_slice_take) (simp add: algebra_simps)
  from Cons.prems have rest: "\<forall>i \<in> set rest. (i + 2) * record_size \<le> m" by simp
  show ?case
    by (simp only: scan_pairs.simps Let_def s1 s2 Cons.IH [OF rest])
qed

lemma py_range_pairs:
  assumes "0 < rc"
  shows "py_range 0 (rc - 1) 2 = map (\<lambda>k. 2 * k) [0 ..< rc div 2]"
    and "py_range 0 (rc - Suc 0) 2 = map (\<lambda>k. 2 * k) [0 ..< rc div 2]"
proof -
  from assms have "(rc - 1 - 0 + 2 - 1) div 2 = rc div 2" by simp
  then show "py_range 0 (rc - 1) 2 = map (\<lambda>k. 2 * k) [0 ..< rc div 2]"
    by (simp add: py_range_def mult.commute)
  then show "py_range 0 (rc - Suc 0) 2 = map (\<lambda>k. 2 * k) [0 ..< rc div 2]"
    by simp
qed

lemma length_scan_pairs:
  "length (scan_pairs utc_offset is_intraday data idxs records) \<le> length records + length idxs"
proof (induction idxs arbitrary: records)
  case Nil
  then show ?case by simp
next
  case (Cons i rest)
  have a: "length (scan_pairs utc_offset is_intraday data rest records) \<le> length records + length rest"
    by (rule Cons.IH)
  have b: "length (scan_pairs utc_offset is_intraday data rest (records @ [r]))
      \<le> length records + 1 + length rest" for r
    using Cons.IH [of "records @ [r]"] by simp
  show ?case
    using a b by (auto simp: Let_def split: option.splits)
qed

lemma build_table_Nil [simp]: "build_table is_intraday file_path [] = empty_dataframe"
  by (simp add: build_table_def)

lemma length_rows_build_table [simp]:
  "length (rows (build_table is_intraday file_path records)) = length records"
  by (simp add: build_table_def rows_table_of empty_dataframe_def)

lemma parse_data_alt:
  "parse_data utc_offset file_path data =
     (if length data div record_size = 0 then empty_dataframe
      else build_table (detect_data_type file_path) file_path
             (scan_pairs utc_offset (detect_data_type file_path) data
                (map (\<lambda>k. 2 * k) [0 ..< length data div record_size div 2]) []))"
  by (simp add: parse_data_def Let_def py_range_pairs)

lemma length_rows_parse_data:
  "length (rows (parse_data utc_offset file_path data)) \<le> length data div record_size div 2"
  using length_scan_pairs [of utc_offset "detect_data_type file_path" data
      "map (\<lambda>k. 2 * k) [0 ..< length data div record_size div 2]" "[]"]
  by (simp add: parse_data_alt empty_dataframe_def)

lemma parse_data_take:
  assumes "2 * (length data div record_size div 2) * record_size \<le> m" "m \<le> length data"
  shows "parse_data utc_offset file_path (take m data) = parse_data utc_offset file_path data"
proof -
  define rc where "rc = length data div record_size"
  define rc' where "rc' = length (take m data) div record_size"
  have len: "length (take m data) = m" using assms(2) by simp
  have le: "rc' \<le> rc" unfolding rc_def rc'_def len using assms(2) by (rule div_le_mono)
  have "2 * (rc div 2) * record_size div record_size \<le> m div record_size"
    using assms(1) unfolding rc_def by (rule div_le_mono)
  then have ge: "2 * (rc div 2) \<le> rc'" unfolding rc'_def len by (simp add: record_size_def)
  from le ge have half: "rc' div 2 = rc div 2" by linarith
  have "\<forall>i \<in> set (map (\<lambda>k. 2 * k) [0 ..< rc div 2]). (i + 2) * record_size \<le> m"
  proof
    fix i assume "i \<in> set (map (\<lambda>k. 2 * k) [0 ..< rc div 2])"
    then obtain k where "i = 2 * k" "k < rc div 2" by auto
    then have "i + 2 \<le> 2 * (rc div 2)" by simp
    then have "(i + 2) * record_size \<le> 2 * (rc div 2) * record_size"
      by (rule mult_le_mono1)
    with assms(1) show "(i + 2) * record_size \<le> m" by (simp add: rc_def)
  qed
  then have scan: "scan_pairs utc_offset (detect_data_type file_path) (take m data)
      (map (\<lambda>k. 2 * k) [0 ..< rc div 2]) [] =
    scan_pairs utc_offset (detect_data_type file_path) data
      (map (\<lambda>k. 2 * k) [0 ..< rc div 2]) []"
    by (rule scan_pairs_take)
  have l: "parse_data utc_offset file_path (take m data) =
     (if rc' = 0 then empty_dataframe
      else build_table (detect_data_type file_path) file_path
             (scan_pairs utc_offset (detect_data_type file_path) data
                (map (\<lambda>k. 2 * k) [0 ..< rc div 2]) []))"
    unfolding parse_data_alt [of utc_offset file_path "take m data"] rc'_def [symmetric] half scan ..
  have r: "parse_data utc_offset file_path data =
     (if rc = 0 then empty_dataframe
      else build_table (detect_data_type file_path) file_path
             (scan_pairs utc_offset (detect_data_type file_path) data
                (map (\<lambda>k. 2 * k) [0 ..< rc div 2]) []))"
    unfolding parse_data_alt [of utc_offset file_path data] rc_def [symmetric] ..
  show ?thesis
  proof (cases "rc' = 0")
    case True
    with ge have "rc div 2 = 0" by simp
    then show ?thesis unfolding l r using True by simp
  next
    case False
    with le have "rc \<noteq> 0" by simp
    with False show ?thesis unfolding l r by simp
  qed
qed

lemma parse_dat_file_Some:
  assumes "fs file_path = Some data"
  shows "parse_dat_file console utc_offset fs file_path = Inr (parse_data utc_offset file_path data)"
  using assms by (simp add: parse_dat_file_def read_file_def)

lemma parse_dat_file_None:
  assumes "fs file_path = None"
  shows "parse_dat_file console utc_offset fs file_path =
         (if console (ParseFailed file_path OSError) then Inr empty_dataframe
          else Inl UnicodeEncodeError)"
  using assms by (simp add: parse_dat_file_def read_file_def py_print_def)

lemma build_table_rows_empty:
  assumes "rows (build_table is_intraday file_path records) = []"
  shows "build_table is_intraday file_path records = empty_dataframe"
proof -
  from assms have "length (rows (build_table is_intraday file_path records)) = 0" by simp
  then show ?thesis by simp
qed

lemma rows_parse_data_empty:
  assumes "rows (parse_data utc_offset file_path data) = []"
  shows "parse_data utc_offset file_path data = empty_dataframe"
proof -
  show ?thesis
    using assms by (auto simp: parse_data_alt intro: build_table_rows_empty split: if_splits)
qed

subsection \<open>The sample tables\<close>

lemma gates_1_intraday:
  "timestamp_valid [0, 0, 1700000000, 10000, 10500, 9900, 10200, 0]"
  "prices_plausible True [0, 0, 1700000000, 10000, 10500, 9900, 10200, 0]"
  "\<not> quality_reject (scale_pair True [0, 0, 1700000000, 10000, 10500, 9900, 10200, 0] [500, 0, 5000000, 0, 0, 0, 0, 0])"
  "\<not> logic_reject (scale_pair True [0, 0, 1700000000, 10000, 10500, 9900, 10200, 0] [500, 0, 5000000, 0, 0, 0, 0, 0])"
  by code_simp+

lemma emit_1_intraday:
  "emit utc True (uint ([0, 0, 1700000000, 10000, 10500, 9900, 10200, 0 :: u32] ! 2))
     (scale_pair True [0, 0, 1700000000, 10000, 10500, 9900, 10200, 0] [500, 0, 5000000, 0, 0, 0, 0, 0]) =
   \<lparr>r_time = ''2023-11-14 22:13:20'', r_open = Finite 10, r_high = Finite (21 / 2),
      r_low = Finite (5573204538870989 / 562949953421312),
      r_close = Finite (2871044762448691 / 281474976710656),
      r_volume = 500, r_amount = PyFloat (Finite 50000)\<rparr>"
  by code_simp

lemma process_pair_1_intraday:
  "process_pair utc True price_record_1 volume_record_1 =
   Some \<lparr>r_time = ''2023-11-14 22:13:20'', r_open = Finite 10, r_high = Finite (21 / 2),
      r_low = Finite (5573204538870989 / 562949953421312),
      r_close = Finite (2871044762448691 / 281474976710656),
      r_volume = 500, r_amount = PyFloat (Finite 50000)\<rparr>"
  using process_pair_unpacked [OF unpack_price_record_1 unpack_volume_record_1 gates_1_intraday, of utc]
  by (simp only: emit_1_intraday)







lemma scan_pairs_file_2:
  "scan_pairs utc True (price_record_2 @ volume_record_2 @ price_record_1 @ volume_record_1) [0, 2] [] =
   [\<lparr>r_time = ''2023-11-14 22:18:20'', r_open = Finite (2871044762448691 / 281474976710656), r_high = Finite (2899192260119757 / 281474976710656),
      r_low = Finite (5685794529555251 / 562949953421312),
      r_close = Finite (41 / 4),
      r_volume = 300, r_amount = PyFloat (Finite 20000)\<rparr>,
    \<lparr>r_time = ''2023-11-14 22:13:20'', r_open = Finite 10, r_high = Finite (21 / 2),
      r_low = Finite (5573204538870989 / 562949953421312),
      r_close = Finite (2871044762448691 / 281474976710656),
      r_volume = 500, r_amount = PyFloat (Finite 50000)\<rparr>]"
  by (simp add: record_size_def Let_def py_slice_whole py_slice_append_whole py_slice_append_skip
      process_pair_2_intraday process_pair_1_intraday)

lemma sort_values_file_2:
  "sort_values
   [\<lparr>r_time = ''2023-11-14 22:18:20'', r_open = Finite (2871044762448691 / 281474976710656), r_high = Finite (2899192260119757 / 281474976710656),
      r_low = Finite (5685794529555251 / 562949953421312),
      r_close = Finite (41 / 4),
      r_volume = 300, r_amount = PyFloat (Finite 20000)\<rparr>,
    \<lparr>r_time = ''2023-11-14 22:13:20'', r_open = Finite 10, r_high = Finite (21 / 2),
      r_low = Finite (5573204538870989 / 562949953421312),
      r_close = Finite (2871044762448691 / 281474976710656),
      r_volume = 500, r_amount = PyFloat (Finite 50000)\<rparr>] =
   [\<lparr>r_time = ''2023-11-14 22:13:20'', r_open = Finite 10, r_high = Finite (21 / 2),
      r_low = Finite (5573204538870989 / 562949953421312),
      r_close = Finite (2871044762448691 / 281474976710656),
      r_volume = 500, r_amount = PyFloat (Finite 50000)\<rparr>,
    \<lparr>r_time = ''2023-11-14 22:18:20'', r_open = Finite (2871044762448691 / 281474976710656), r_high = Finite (2899192260119757 / 281474976710656),
      r_low = Finite (5685794529555251 / 562949953421312),
      r_close = Finite (41 / 4),
      r_volume = 300, r_amount = PyFloat (Finite 20000)\<rparr>]"
  by code_simp

lemma pct_change_file_2:
  "pct_change_100 [Finite (2871044762448691 / 281474976710656), Finite (41 / 4)] =
   [NaN, Finite (137977929760125 / 281474976710656)]"
  by code_simp





subsection \<open>The columns of a table\<close>



lemma parse_file_2:
  "parse_dat_file utf8_console utc sample_fs ''data/sh5mK/600000.DAT'' = Inr intraday_table"
  by (simp add: parse_dat_file_def read_file_def sample_fs_def parse_data_def build_table_def table_of_def amount_column_def
      record_size_def py_range_def detect_samples stem_samples scan_pairs_file_2 Let_def
      sort_values_file_2 pct_change_file_2 make_row_def upt_conv_Cons
      intraday_table_def intraday_row_1_def intraday_row_2_def del: scan_pairs.simps)



lemma fdiv_NaN [simp]: "fdiv x NaN = NaN"
  by (cases x) simp_all



lemma length_shift1 [simp]: "length (shift1 xs) = length xs"
  by (simp add: shift1_def)


lemma length_rows_table_of [simp]:
  "length (rows (table_of is_intraday file_path srt)) = length srt"
  by (simp add: rows_table_of)

lemma rows_table_of_nth:
  assumes "i < length srt"
  shows "rows (table_of is_intraday file_path srt) ! i =
         make_row (path_stem file_path) (srt ! i) (amount_column (map r_amount srt) ! i)
           (pct_change_100 (map r_close srt) ! i)"
  using assms by (simp add: rows_table_of)

lemma table_of_columns:
  "map time (rows (table_of is_intraday file_path srt)) = map r_time srt"
  "map close_col (rows (table_of is_intraday file_path srt)) = map r_close srt"
  "map pct_change (rows (table_of is_intraday file_path srt)) = pct_change_100 (map r_close srt)"
  by (rule nth_equalityI; simp add: rows_table_of_nth make_row_def)+

lemma table_of_pct_change:
  "map pct_change (rows (table_of is_intraday file_path srt)) =
   pct_change_100 (map close_col (rows (table_of is_intraday file_path srt)))"
  by (simp only: table_of_columns)





lemma sorted_consecutive:
  assumes "sorted (map f xs)" "Suc i < length xs"
  shows "f (xs ! i) \<le> f (xs ! Suc i)"
  using sorted_nth_mono [OF assms(1), of i "Suc i"] assms(2) by simp

lemma parse_dat_file_table:
  assumes "parse_dat_file console utc_offset fs file_path = Inr df"
  shows "df = empty_dataframe \<or>
         (\<exists>is_intraday srt. sorted (map r_time srt) \<and> df = table_of is_intraday file_path srt)"
proof -
  from parse_dat_file_cases [OF assms] show ?thesis
  proof
    assume "df = empty_dataframe"
    then show ?thesis by simp
  next
    assume "\<exists>data. fs file_path = Some data \<and> df = parse_data utc_offset file_path data"
    then obtain data where df: "df = parse_data utc_offset file_path data" by blast
    have s: "sorted (map r_time (sort_values recs))" for recs
      by (simp add: sort_values_def)
    show ?thesis
      unfolding df parse_data_alt build_table_def using s by auto
  qed
qed

lemma parse_dat_file_pct:
  assumes "parse_dat_file console utc_offset fs file_path = Inr df"
  shows "map pct_change (rows df) = pct_change_100 (map close_col (rows df))"
    and "sorted (map time (rows df))"
proof -
  from parse_dat_file_table [OF assms]
  have "map pct_change (rows df) = pct_change_100 (map close_col (rows df)) \<and>
        sorted (map time (rows df))"
  proof
    assume "df = empty_dataframe"
    then show ?thesis by (simp add: empty_dataframe_def pct_change_100_def shift1_def)
  next
    assume "\<exists>is_intraday srt. sorted (map r_time srt) \<and> df = table_of is_intraday file_path srt"
    then obtain is_intraday srt where "sorted (map r_time srt)"
      and "df = table_of is_intraday file_path srt" by blast
    then show ?thesis by (simp add: table_of_pct_change table_of_columns(1))
  qed
  then show "map pct_change (rows df) = pct_change_100 (map close_col (rows df))"
    and "sorted (map time (rows df))" by simp_all
qed


lemma parse_dat_file_returns:
  assumes "fs file_path \<noteq> None \<or> console (ParseFailed file_path OSError)"
  shows "\<exists>df. parse_dat_file console utc_offset fs file_path = Inr df \<and>
           (rows df = [] \<longrightarrow> df = empty_dataframe) \<and>
           (fs file_path = None \<longrightarrow> df = empty_dataframe)"
proof (cases "fs file_path")
  case None
  with assms show ?thesis by (simp add: parse_dat_file_None)
next
  case (Some data)
  then show ?thesis
    using rows_parse_data_empty by (simp add: parse_dat_file_Some)
qed

section \<open>The claims\<close>

text \<open>
  Claim C1. Every bar of the table returned for a file, daily or intraday, has finite
  prices with \<open>low \<le> min open close\<close> and \<open>max open close \<le> high\<close>, as stored after the
  rounding to two decimals.
\<close>

theorem materialized_bar_ordering:
  assumes "parse_dat_file console utc_offset fs file_path = Inr df" and "r \<in> set (rows df)"
  shows "\<exists>ob hb lb cb. open_col r = Finite ob \<and> high_col r = Finite hb \<and>
           low_col r = Finite lb \<and> close_col r = Finite cb \<and>
           lb \<le> min ob cb \<and> max ob cb \<le> hb"
proof -
  from parse_dat_file_rows [OF assms] obtain b a pct price_data volume_data where
    pp: "process_pair utc_offset (detect_data_type file_path) price_data volume_data = Some b"
    and r: "r = make_row (path_stem file_path) b a pct"
    by blast
  from emitted_bar_order [OF pp] show ?thesis
    unfolding r by (auto simp: make_row_def)
qed

theorem materialized_bar_ordering_witness:
  "parse_dat_file utf8_console utc sample_fs ''data/szdayK/000001.DAT'' = Inr daily_table \<and>
   daily_row \<in> set (rows daily_table) \<and>
   (\<exists>ob hb lb cb. open_col daily_row = Finite ob \<and> high_col daily_row = Finite hb \<and>
      low_col daily_row = Finite lb \<and> close_col daily_row = Finite cb \<and>
      lb \<le> min ob cb \<and> max ob cb \<le> hb)"
proof -
  have mem: "daily_row \<in> set (rows daily_table)"
    by (simp add: daily_table_def)
  show ?thesis
    using materialized_bar_ordering [OF parse_file_1 mem] parse_file_1 mem by simp
qed

text \<open>
  Claim C3. For every accepted record pair, the scaled open, high, low and close are the
  raw fields 3, 4, 5 and 6 of the price record divided by 1000.0, that is, the floats
  nearest to the exact quotients. In daily mode the volume is field 0 of the volume
  record times 100 and the amount is its field 2 as an int; in intraday mode the volume
  is field 0 and the amount is field 2 divided by 100.0 exactly when the raw value
  exceeds 1000000, and the raw int otherwise. The record that is appended stores the
  volume as it is, and the prices and the amount after \<^verbatim>\<open>round(x, 2)\<close>.
\<close>

theorem scaling_of_accepted_pair:
  assumes "process_pair utc_offset is_intraday price_data volume_data = Some b"
    and "struct_unpack_8I price_data = Inr p"
    and "struct_unpack_8I volume_data = Inr v"
  shows "b = emit utc_offset is_intraday (uint (p ! 2)) (scale_pair is_intraday p v) \<and>
    open_price (scale_pair is_intraday p v) = int_truediv (uint (p ! 3)) 1000 \<and>
    high_price (scale_pair is_intraday p v) = int_truediv (uint (p ! 4)) 1000 \<and>
    low_price (scale_pair is_intraday p v) = int_truediv (uint (p ! 5)) 1000 \<and>
    close_price (scale_pair is_intraday p v) = int_truediv (uint (p ! 6)) 1000 \<and>
    open_price (scale_pair is_intraday p v) = Finite (round_binary64 (of_int (uint (p ! 3)) / 1000)) \<and>
    high_price (scale_pair is_intraday p v) = Finite (round_binary64 (of_int (uint (p ! 4)) / 1000)) \<and>
    low_price (scale_pair is_intraday p v) = Finite (round_binary64 (of_int (uint (p ! 5)) / 1000)) \<and>
    close_price (scale_pair is_intraday p v) = Finite (round_binary64 (of_int (uint (p ! 6)) / 1000)) \<and>
    volume (scale_pair is_intraday p v) =
      (if is_intraday then uint (v ! 0) else uint (v ! 0) * 100) \<and>
    amount (scale_pair is_intraday p v) =
      (if is_intraday \<and> 1000000 < uint (v ! 2)
       then PyFloat (int_truediv (uint (v ! 2)) 100) else PyInt (uint (v ! 2))) \<and>
    int_truediv (uint (v ! 2)) 100 = Finite (round_binary64 (of_int (uint (v ! 2)) / 100)) \<and>
    ((\<exists>x. amount (scale_pair is_intraday p v) = PyFloat x) \<longleftrightarrow>
       is_intraday \<and> 1000000 < uint (v ! 2)) \<and>
    r_volume b = volume (scale_pair is_intraday p v)"
proof -
  from process_pair_SomeD [OF assms(1)] assms(2,3)
  have b: "b = emit utc_offset is_intraday (uint (p ! 2)) (scale_pair is_intraday p v)"
    by auto
  have tr: "int_truediv (uint w) 1000 = Finite (round_binary64 (of_int (uint w) / 1000))"
    "int_truediv (uint w) 100 = Finite (round_binary64 (of_int (uint w) / 100))" for w :: u32
    using int_truediv_u32 [OF uint_u32_bounds, of 1000 w] int_truediv_u32 [OF uint_u32_bounds, of 100 w]
    by simp_all
  have vol: "r_volume b = volume (scale_pair is_intraday p v)"
    unfolding b by (simp add: emit_def)
  show ?thesis
    using b vol by (simp add: scale_pair_def tr Let_def)
qed

theorem scaling_of_accepted_pair_witness:
  "process_pair utc True price_record_2 volume_record_2 =
     Some \<lparr>r_time = ''2023-11-14 22:18:20'',
       r_open = Finite (2871044762448691 / 281474976710656),
       r_high = Finite (2899192260119757 / 281474976710656),
       r_low = Finite (5685794529555251 / 562949953421312),
       r_close = Finite (41 / 4),
       r_volume = 300, r_amount = PyFloat (Finite 20000)\<rparr> \<and>
   struct_unpack_8I price_record_2 = Inr [0, 0, 1700000300, 10200, 10300, 10100, 10250, 0] \<and>
   struct_unpack_8I volume_record_2 = Inr [300, 0, 2000000, 0, 0, 0, 0, 0] \<and>
   open_price (scale_pair True [0, 0, 1700000300, 10200, 10300, 10100, 10250, 0]
       [300, 0, 2000000, 0, 0, 0, 0, 0]) = int_truediv 10200 1000 \<and>
   volume (scale_pair True [0, 0, 1700000300, 10200, 10300, 10100, 10250, 0]
       [300, 0, 2000000, 0, 0, 0, 0, 0]) = 300 \<and>
   amount (scale_pair True [0, 0, 1700000300, 10200, 10300, 10100, 10250, 0]
       [300, 0, 2000000, 0, 0, 0, 0, 0]) = PyFloat (int_truediv 2000000 100)"
  using scaling_of_accepted_pair [OF process_pair_2_intraday unpack_price_record_2
      unpack_volume_record_2]
    process_pair_2_intraday unpack_price_record_2 unpack_volume_record_2
  by simp

text \<open>
  Claim C10. In every record pair that passes all the tests of the loop body, the raw
  fields 3, 4 and 6 of the price record (open, high and close) are strictly positive;
  a pair whose raw field 5 (low) is zero can pass them, as the fourth sample price
  record does.
\<close>

theorem accepted_raw_open_high_close_positive:
  "(process_pair utc_offset is_intraday price_data volume_data = Some b \<and>
      struct_unpack_8I price_data = Inr p \<longrightarrow>
      0 < uint (p ! 3) \<and> 0 < uint (p ! 4) \<and> 0 < uint (p ! 6)) \<and>
   (\<exists>b' p'. process_pair utc False price_record_4 volume_record_1 = Some b' \<and>
      struct_unpack_8I price_record_4 = Inr p' \<and> uint (p' ! 5) = 0)"
proof
  show "process_pair utc_offset is_intraday price_data volume_data = Some b \<and>
      struct_unpack_8I price_data = Inr p \<longrightarrow>
      0 < uint (p ! 3) \<and> 0 < uint (p ! 4) \<and> 0 < uint (p ! 6)"
    using accepted_raw_positive_aux by blast
  show "\<exists>b' p'. process_pair utc False price_record_4 volume_record_1 = Some b' \<and>
      struct_unpack_8I price_record_4 = Inr p' \<and> uint (p' ! 5) = 0"
    using process_pair_4_daily unpack_price_record_4 by auto
qed

theorem accepted_raw_open_high_close_positive_witness:
  "process_pair utc False price_record_1 volume_record_1 =
     Some \<lparr>r_time = ''2023-11-14'', r_open = Finite 10, r_high = Finite (21 / 2),
       r_low = Finite (5573204538870989 / 562949953421312),
       r_close = Finite (2871044762448691 / 281474976710656),
       r_volume = 50000, r_amount = PyInt 5000000\<rparr> \<and>
   struct_unpack_8I price_record_1 = Inr [0, 0, 1700000000, 10000, 10500, 9900, 10200, 0] \<and>
   0 < uint ([0, 0, 1700000000, 10000, 10500, 9900, 10200, 0 :: u32] ! 3) \<and>
   0 < uint ([0, 0, 1700000000, 10000, 10500, 9900, 10200, 0 :: u32] ! 4) \<and>
   0 < uint ([0, 0, 1700000000, 10000, 10500, 9900, 10200, 0 :: u32] ! 6)"
  using accepted_raw_open_high_close_positive [of utc False price_record_1 volume_record_1
      "\<lparr>r_time = ''2023-11-14'', r_open = Finite 10, r_high = Finite (21 / 2),
       r_low = Finite (5573204538870989 / 562949953421312),
       r_close = Finite (2871044762448691 / 281474976710656),
       r_volume = 50000, r_amount = PyInt 5000000\<rparr>"
      "[0, 0, 1700000000, 10000, 10500, 9900, 10200, 0]"]
    process_pair_1_daily unpack_price_record_1
  by blast

text \<open>
  Claim C5. Records are consumed in pairs: a file with \<open>2 * n\<close> full records gives at
  most \<open>n\<close> bars, and a file with \<open>2 * n + 1\<close> full records gives the same result as
  its first \<open>2 * n\<close> records.
\<close>

theorem pairs_advance_by_two:
  assumes "fs file_path = Some data"
  shows "(length data div record_size = 2 * n \<longrightarrow>
          (\<exists>df. parse_dat_file console utc_offset fs file_path = Inr df \<and> length (rows df) \<le> n)) \<and>
         (length data div record_size = 2 * n + 1 \<longrightarrow>
          parse_dat_file console utc_offset (fs(file_path \<mapsto> take (2 * n * record_size) data)) file_path =
          parse_dat_file console utc_offset fs file_path)"
proof (intro conjI impI)
  assume "length data div record_size = 2 * n"
  then show "\<exists>df. parse_dat_file console utc_offset fs file_path = Inr df \<and> length (rows df) \<le> n"
    using length_rows_parse_data [of utc_offset file_path data]
    by (simp add: parse_dat_file_Some [where fs = fs, OF assms])
next
  assume odd: "length data div record_size = 2 * n + 1"
  then have h: "length data div record_size div 2 = n" by simp
  have "length data div record_size * record_size \<le> length data" by simp
  then have "(2 * n + 1) * record_size \<le> length data" by (simp only: odd)
  then have le: "2 * n * record_size \<le> length data" by simp
  have "parse_data utc_offset file_path (take (2 * n * record_size) data) =
      parse_data utc_offset file_path data"
    by (rule parse_data_take) (simp_all add: h le)
  then show "parse_dat_file console utc_offset (fs(file_path \<mapsto> take (2 * n * record_size) data)) file_path =
          parse_dat_file console utc_offset fs file_path"
    by (simp add: parse_dat_file_Some [where fs = fs, OF assms]
        parse_dat_file_Some [where fs = "fs(file_path \<mapsto> take (2 * n * record_size) data)"])
qed

theorem pairs_advance_by_two_witness:
  "sample_fs ''data/szdayK/000003.DAT'' = Some (price_record_1 @ volume_record_1 @ price_record_2) \<and>
   length (price_record_1 @ volume_record_1 @ price_record_2) div record_size = 2 * 1 + 1 \<and>
   parse_dat_file utf8_console utc
     (sample_fs(''data/szdayK/000003.DAT'' \<mapsto>
        take (2 * 1 * record_size) (price_record_1 @ volume_record_1 @ price_record_2)))
     ''data/szdayK/000003.DAT'' =
   parse_dat_file utf8_console utc sample_fs ''data/szdayK/000003.DAT''"
proof -
  have a: "sample_fs ''data/szdayK/000003.DAT'' = Some (price_record_1 @ volume_record_1 @ price_record_2)"
    by (simp add: sample_fs_def)
  have b: "length (price_record_1 @ volume_record_1 @ price_record_2) div record_size = 2 * 1 + 1"
    by (simp add: record_size_def)
  from pairs_advance_by_two [where fs = sample_fs and n = 1 and utc_offset = utc, OF a] a b
  show ?thesis by blast
qed

text \<open>
  Claim C8. A file that ends in a partial record, shorter than 32 bytes, is parsed to
  the same table as the file cut before the partial record; the result is a table, not
  an error.
\<close>

theorem malformed_tail_ignored:
  assumes "fs file_path = Some data" and "length data mod record_size \<noteq> 0"
  shows "parse_dat_file console utc_offset
           (fs(file_path \<mapsto> take (length data div record_size * record_size) data)) file_path =
         parse_dat_file console utc_offset fs file_path \<and>
         (\<exists>df. parse_dat_file console utc_offset fs file_path = Inr df)"
proof -
  have "2 * (length data div record_size div 2) \<le> length data div record_size" by simp
  then have a: "2 * (length data div record_size div 2) * record_size
      \<le> length data div record_size * record_size"
    by (rule mult_le_mono1)
  have b: "length data div record_size * record_size \<le> length data" by simp
  have "parse_data utc_offset file_path (take (length data div record_size * record_size) data) =
      parse_data utc_offset file_path data"
    using a b by (rule parse_data_take)
  then show ?thesis
    by (simp add: parse_dat_file_Some [where fs = fs, OF assms(1)]
        parse_dat_file_Some
          [where fs = "fs(file_path \<mapsto> take (length data div record_size * record_size) data)"])
qed

theorem malformed_tail_ignored_witness:
  "sample_fs ''data/szdayK/000004.DAT'' = Some (price_record_1 @ volume_record_1 @ [1, 2, 3]) \<and>
   length (price_record_1 @ volume_record_1 @ [1, 2, 3]) mod record_size \<noteq> 0 \<and>
   parse_dat_file utf8_console utc
     (sample_fs(''data/szdayK/000004.DAT'' \<mapsto>
        take (length (price_record_1 @ volume_record_1 @ [1, 2, 3]) div record_size * record_size)
          (price_record_1 @ volume_record_1 @ [1, 2, 3])))
     ''data/szdayK/000004.DAT'' =
   parse_dat_file utf8_console utc sample_fs ''data/szdayK/000004.DAT''"
proof -
  have a: "sample_fs ''data/szdayK/000004.DAT'' = Some (price_record_1 @ volume_record_1 @ [1, 2, 3])"
    by (simp add: sample_fs_def)
  have b: "length (price_record_1 @ volume_record_1 @ [1, 2, 3]) mod record_size \<noteq> 0"
    by (simp add: record_size_def)
  from malformed_tail_ignored [where fs = sample_fs and utc_offset = utc, OF a b] a b
  show ?thesis by blast
qed






text \<open>
  Claim C6. The rows of the table returned for a file are in ascending order of the time
  string, each consecutive pair non-decreasing, and the \<open>pct_change\<close> column is computed
  from the close column in that order. The same holds for the table built from any sorted
  arrangement of the records.
\<close>

theorem rows_sorted_by_time:
  assumes "parse_dat_file console utc_offset fs file_path = Inr df"
  shows "(\<forall>i. Suc i < length (rows df) \<longrightarrow> time (rows df ! i) \<le> time (rows df ! Suc i)) \<and>
    map pct_change (rows df) = pct_change_100 (map close_col (rows df)) \<and>
    (\<forall>is_intraday srt. sorted (map r_time srt) \<longrightarrow>
       (\<forall>i. Suc i < length srt \<longrightarrow>
          time (rows (table_of is_intraday file_path srt) ! i)
            \<le> time (rows (table_of is_intraday file_path srt) ! Suc i)) \<and>
       map pct_change (rows (table_of is_intraday file_path srt)) =
         pct_change_100 (map close_col (rows (table_of is_intraday file_path srt))))"
proof -
  have "time (rows df ! i) \<le> time (rows df ! Suc i)" if "Suc i < length (rows df)" for i
    using parse_dat_file_pct(2) [OF assms] that by (rule sorted_consecutive)
  moreover have "time (rows (table_of is_intraday file_path srt) ! i)
            \<le> time (rows (table_of is_intraday file_path srt) ! Suc i)"
    if "sorted (map r_time srt)" "Suc i < length srt" for is_intraday srt i
  proof -
    have "sorted (map time (rows (table_of is_intraday file_path srt)))"
      using that(1) by (simp only: table_of_columns)
    moreover have "Suc i < length (rows (table_of is_intraday file_path srt))"
      using that(2) by simp
    ultimately show ?thesis by (rule sorted_consecutive)
  qed
  ultimately show ?thesis
    using parse_dat_file_pct(1) [OF assms] table_of_pct_change by blast
qed

theorem rows_sorted_by_time_witness:
  "parse_dat_file utf8_console utc sample_fs ''data/sh5mK/600000.DAT'' = Inr intraday_table \<and>
   Suc 0 < length (rows intraday_table) \<and>
   time (rows intraday_table ! 0) = ''2023-11-14 22:13:20'' \<and>
   time (rows intraday_table ! Suc 0) = ''2023-11-14 22:18:20'' \<and>
   time (rows intraday_table ! 0) \<le> time (rows intraday_table ! Suc 0)"
proof -
  have a: "Suc 0 < length (rows intraday_table)"
    "time (rows intraday_table ! 0) = ''2023-11-14 22:13:20''"
    "time (rows intraday_table ! Suc 0) = ''2023-11-14 22:18:20''"
    by (simp_all add: intraday_table_def intraday_row_1_def intraday_row_2_def)
  from rows_sorted_by_time [OF parse_file_2] a(1)
  have "time (rows intraday_table ! 0) \<le> time (rows intraday_table ! Suc 0)" by blast
  with a parse_file_2 show ?thesis by simp
qed

text \<open>
  Claim C9 fails on the code. When the file cannot be read and the console rejects the
  message printed by the \<^verbatim>\<open>except\<close> handler, the error of \<^verbatim>\<open>print\<close> leaves
  \<^verbatim>\<open>parse_dat_file\<close> and ends the loop of \<^verbatim>\<open>parse_directory\<close>. (When the file can be
  read, or the console accepts the message, a table is returned, see
  \<open>parse_dat_file_returns\<close>.)
\<close>

theorem parse_dat_file_print_failure:
  "sample_fs ''data/szdayK/missing.DAT'' = None \<and>
   parse_dat_file ascii_console utc sample_fs ''data/szdayK/missing.DAT'' =
     Inl UnicodeEncodeError \<and>
   parse_files ascii_console utc sample_fs 1 1 [''data/szdayK/missing.DAT''] ([], 0) =
     Inl UnicodeEncodeError"
proof -
  have a: "sample_fs ''data/szdayK/missing.DAT'' = None"
    by (simp add: sample_fs_def)
  have b: "parse_dat_file ascii_console utc sample_fs ''data/szdayK/missing.DAT'' =
      Inl UnicodeEncodeError"
    by (simp add: parse_dat_file_None [where fs = sample_fs, OF a] ascii_console_def)
  from a b show ?thesis by simp
qed

end
